theory Spec2Isabelle
  imports Main
begin

section \<open>Shared result type\<close>

text \<open>
  A shared pointer that is dereferenced while null, and a \<open>join\<close> on a thread that never
  leaves its loop, have no result in C++; the model returns them as values.
\<close>

datatype failure = NullPointerDereference | JoinNeverReturns

definition bind_result :: "failure + 'a \<Rightarrow> ('a \<Rightarrow> failure + 'b) \<Rightarrow> failure + 'b" where
  "bind_result r f = (case r of Inl err \<Rightarrow> Inl err | Inr v \<Rightarrow> f v)"

section \<open>ADSL/src/DirectiveSequencer.cpp\<close>

subsection \<open>Data\<close>

text \<open>
  The accessors of \<open>AVSDirective\<close> that the sequencer reads. A \<open>std::shared_ptr<AVSDirective>\<close>
  is a \<open>AVSDirective option\<close>, \<open>None\<close> being the null pointer.
\<close>

record AVSDirective =
  getName :: string
  getDialogRequestId :: string
  getMessageId :: string
  getUnparsedDirective :: string
  getHeaderAsString :: string

text \<open>
  Modelled from the spec: the enumeration \<open>ExceptionErrorType\<close> (its header is not among the
  sources); section 4.5 lists the kinds the core uses.
\<close>

datatype ExceptionErrorType = UNSUPPORTED_OPERATION | UNEXPECTED_INFORMATION_RECEIVED | INTERNAL_ERROR

type_synonym handler = nat

text \<open>
  The calls the sequencer makes on its collaborators (power resource, power monitor, condition
  variable, processor, router, exception sender, shutdown notifier), in the order made.
  Logging and metric macros are left out.
\<close>

datatype call =
    PowerAcquire
  | PowerRelease
  | AssignThreadPowerResource
  | RemoveThreadPowerResource
  | NotifyOne
  | ProcessorSetDialogRequestId string
  | ProcessorGetDialogRequestId
  | ProcessorOnDirective AVSDirective
  | ProcessorDisable
  | ProcessorEnable
  | ProcessorShutdown
  | RouterAddDirectiveHandler handler
  | RouterRemoveDirectiveHandler handler
  | RouterHandleDirectiveImmediately AVSDirective
  | RouterShutdown
  | SendExceptionEncountered string ExceptionErrorType string
  | ShutdownNotifierAddObserver

text \<open>
  What is outside the file: the build option, whether the power monitor hands out a resource,
  and the answers of the processor and the router, which may depend on every call made so far.
\<close>

record env =
  DIALOG_REQUEST_ID_IN_ALL_RESPONSE_DIRECTIVES :: bool
  createLocalPowerResource :: bool
  processorOnDirective :: "call list \<Rightarrow> AVSDirective \<Rightarrow> bool"
  processorGetDialogRequestId :: "call list \<Rightarrow> string"
  routerHandleDirectiveImmediately :: "call list \<Rightarrow> AVSDirective \<Rightarrow> bool"
  routerAddDirectiveHandler :: "call list \<Rightarrow> handler \<Rightarrow> bool"
  routerRemoveDirectiveHandler :: "call list \<Rightarrow> handler \<Rightarrow> bool"

text \<open>Where the receiving thread stands in \<open>receivingLoop\<close>.\<close>

datatype thread_pc = AtEntry | InLoop | Returned

record DirectiveSequencer =
  m_exceptionSender :: bool
  m_isShuttingDown :: bool
  m_isEnabled :: bool
  m_receivingQueue :: "AVSDirective list"
  m_powerResource :: bool
  m_receivingThread_joinable :: bool
  m_receivingThread_pc :: thread_pc
  calls :: "call list"

subsection \<open>Construction\<close>

text \<open>
  The constructor acquires the power resource if the power monitor gave one, makes the
  processor and starts the receiving thread, which stands at the entry of \<open>receivingLoop\<close>.
  The argument tells whether the exception sender is non-null.
\<close>

definition DirectiveSequencer_new :: "env \<Rightarrow> bool \<Rightarrow> DirectiveSequencer" where
  "DirectiveSequencer_new e exceptionSender =
     \<lparr> m_exceptionSender = exceptionSender,
       m_isShuttingDown = False,
       m_isEnabled = True,
       m_receivingQueue = [],
       m_powerResource = createLocalPowerResource e,
       m_receivingThread_joinable = True,
       m_receivingThread_pc = AtEntry,
       calls = (if createLocalPowerResource e then [PowerAcquire] else []) \<rparr>"

definition create :: "env \<Rightarrow> bool \<Rightarrow> DirectiveSequencer option" where
  "create e exceptionSender =
     (if \<not> exceptionSender then None
      else Some (DirectiveSequencer_new e exceptionSender))"

definition createDirectiveSequencerInterface ::
    "env \<Rightarrow> bool \<Rightarrow> bool \<Rightarrow> DirectiveSequencer option" where
  "createDirectiveSequencerInterface e exceptionSender shutdownNotifier =
     (if \<not> exceptionSender \<or> \<not> shutdownNotifier then None
      else let sequencer = DirectiveSequencer_new e exceptionSender
           in Some (sequencer\<lparr>calls := calls sequencer @ [ShutdownNotifierAddObserver]\<rparr>))"

subsection \<open>Public operations\<close>

definition addDirectiveHandler :: "env \<Rightarrow> handler \<Rightarrow> DirectiveSequencer \<Rightarrow> bool \<times> DirectiveSequencer" where
  "addDirectiveHandler e h s =
     (routerAddDirectiveHandler e (calls s) h, s\<lparr>calls := calls s @ [RouterAddDirectiveHandler h]\<rparr>)"

definition removeDirectiveHandler :: "env \<Rightarrow> handler \<Rightarrow> DirectiveSequencer \<Rightarrow> bool \<times> DirectiveSequencer" where
  "removeDirectiveHandler e h s =
     (routerRemoveDirectiveHandler e (calls s) h, s\<lparr>calls := calls s @ [RouterRemoveDirectiveHandler h]\<rparr>)"

definition setDialogRequestId :: "string \<Rightarrow> DirectiveSequencer \<Rightarrow> DirectiveSequencer" where
  "setDialogRequestId dialogRequestId s =
     s\<lparr>calls := calls s @ [ProcessorSetDialogRequestId dialogRequestId]\<rparr>"

text \<open>\<open>DirectiveSequencer::getDialogRequestId\<close>; the plain name is the accessor of the directive.\<close>

definition sequencer_getDialogRequestId :: "env \<Rightarrow> DirectiveSequencer \<Rightarrow> string \<times> DirectiveSequencer" where
  "sequencer_getDialogRequestId e s =
     (processorGetDialogRequestId e (calls s), s\<lparr>calls := calls s @ [ProcessorGetDialogRequestId]\<rparr>)"

definition onDirective :: "AVSDirective option \<Rightarrow> DirectiveSequencer \<Rightarrow> bool \<times> DirectiveSequencer" where
  "onDirective directive s =
     (case directive of
        None \<Rightarrow> (False, s)
      | Some d \<Rightarrow>
          if m_isShuttingDown s \<or> \<not> m_isEnabled s then (False, s)
          else (True, s\<lparr>m_receivingQueue := m_receivingQueue s @ [d],
                         calls := calls s @ [NotifyOne]\<rparr>))"

definition disable :: "DirectiveSequencer \<Rightarrow> DirectiveSequencer" where
  "disable s =
     s\<lparr>m_isEnabled := False,
       calls := calls s @ [ProcessorSetDialogRequestId '''', ProcessorDisable, NotifyOne]\<rparr>"

definition enable :: "DirectiveSequencer \<Rightarrow> DirectiveSequencer" where
  "enable s =
     s\<lparr>m_isEnabled := True,
       calls := calls s @ [ProcessorEnable, NotifyOne]\<rparr>"

subsection \<open>The receiving thread\<close>

text \<open>The predicate \<open>wake\<close> of \<open>receivingLoop\<close>, on which the condition variable waits.\<close>

definition wake :: "DirectiveSequencer \<Rightarrow> bool" where
  "wake s = (m_receivingQueue s \<noteq> [] \<or> m_isShuttingDown s)"

text \<open>The conditional block of \<open>receiveDirectiveLocked\<close> that sets \<open>handled\<close>.\<close>

definition handled :: "env \<Rightarrow> call list \<Rightarrow> AVSDirective \<Rightarrow> bool \<times> call" where
  "handled e cs directive =
     (if DIALOG_REQUEST_ID_IN_ALL_RESPONSE_DIRECTIVES e then
        (if getDialogRequestId directive = []
         then (routerHandleDirectiveImmediately e cs directive, RouterHandleDirectiveImmediately directive)
         else (processorOnDirective e cs directive, ProcessorOnDirective directive))
      else (processorOnDirective e cs directive, ProcessorOnDirective directive))"

text \<open>
  \<open>receiveDirectiveLocked\<close>: nothing on an empty queue; otherwise the front directive is
  removed and dispatched, and a directive that was not handled is reported through
  \<open>m_exceptionSender\<close>, which must not be null then.
\<close>

definition receiveDirectiveLocked :: "env \<Rightarrow> DirectiveSequencer \<Rightarrow> failure + DirectiveSequencer" where
  "receiveDirectiveLocked e s =
     (case m_receivingQueue s of
        [] \<Rightarrow> Inr s
      | directive # rest \<Rightarrow>
          let (h, c) = handled e (calls s) directive in
          if \<not> h then
            (if m_exceptionSender s
             then Inr (s\<lparr>m_receivingQueue := rest,
                         calls := calls s @ [c, SendExceptionEncountered (getUnparsedDirective directive)
                                                  UNSUPPORTED_OPERATION ''Unsupported operation'']\<rparr>)
             else Inl NullPointerDereference)
          else Inr (s\<lparr>m_receivingQueue := rest, calls := calls s @ [c]\<rparr>))"

text \<open>What \<open>receivingLoop\<close> does after the loop.\<close>

definition receivingLoop_exit :: "DirectiveSequencer \<Rightarrow> DirectiveSequencer" where
  "receivingLoop_exit s =
     s\<lparr>m_receivingThread_pc := Returned,
       calls := calls s @ [RemoveThreadPowerResource] @ (if m_powerResource s then [PowerRelease] else [])\<rparr>"

text \<open>
  One scheduling step of the thread that runs \<open>receivingLoop\<close>: the entry of the function, or
  one iteration of the loop. An iteration whose \<open>wait\<close> is not woken leaves everything as it is.
\<close>

definition receivingLoop_step :: "env \<Rightarrow> DirectiveSequencer \<Rightarrow> failure + DirectiveSequencer" where
  "receivingLoop_step e s =
     (case m_receivingThread_pc s of
        AtEntry \<Rightarrow> Inr (s\<lparr>m_receivingThread_pc := InLoop, calls := calls s @ [AssignThreadPowerResource]\<rparr>)
      | InLoop \<Rightarrow>
          if \<not> wake s then Inr s
          else if m_isShuttingDown s then Inr (receivingLoop_exit s)
          else receiveDirectiveLocked e s
      | Returned \<Rightarrow> Inr s)"

text \<open>
  \<open>m_receivingThread.join()\<close>: the caller waits while the thread runs on; a thread that waits
  unwoken never returns, and neither does the join.
\<close>

function join :: "env \<Rightarrow> DirectiveSequencer \<Rightarrow> failure + DirectiveSequencer" where
  "join e s =
     (if m_receivingThread_pc s = Returned then Inr (s\<lparr>m_receivingThread_joinable := False\<rparr>)
      else if m_receivingThread_pc s = InLoop \<and> \<not> wake s then Inl JoinNeverReturns
      else case receivingLoop_step e s of Inl err \<Rightarrow> Inl err | Inr s' \<Rightarrow> join e s')"
  by pat_completeness auto
termination
proof (relation "measure (\<lambda>(e, s). 2 * length (m_receivingQueue s) +
          (case m_receivingThread_pc s of AtEntry \<Rightarrow> 2 | InLoop \<Rightarrow> 1 | Returned \<Rightarrow> 0))")
  show "wf (measure (\<lambda>(e, s). 2 * length (m_receivingQueue s) +
          (case m_receivingThread_pc s of AtEntry \<Rightarrow> 2 | InLoop \<Rightarrow> 1 | Returned \<Rightarrow> 0)))"
    by simp
next
  fix e s s'
  assume "m_receivingThread_pc s \<noteq> Returned"
    and "\<not> (m_receivingThread_pc s = InLoop \<and> \<not> wake s)"
    and "receivingLoop_step e s = Inr s'"
  then show "((e, s'), (e, s)) \<in> measure (\<lambda>(e, s). 2 * length (m_receivingQueue s) +
          (case m_receivingThread_pc s of AtEntry \<Rightarrow> 2 | InLoop \<Rightarrow> 1 | Returned \<Rightarrow> 0))"
    by (cases "m_receivingThread_pc s")
       (auto simp: receivingLoop_step_def receivingLoop_exit_def receiveDirectiveLocked_def wake_def
             split: if_splits list.splits prod.splits thread_pc.splits)
qed

declare join.simps [simp del]

definition doShutdown :: "env \<Rightarrow> DirectiveSequencer \<Rightarrow> failure + DirectiveSequencer" where
  "doShutdown e s =
     (let s1 = s\<lparr>m_isShuttingDown := True, calls := calls s @ [NotifyOne]\<rparr> in
      bind_result (if m_receivingThread_joinable s1 then join e s1 else Inr s1)
        (\<lambda>s2. Inr (s2\<lparr>m_exceptionSender := False,
                        calls := calls s2 @ [ProcessorShutdown, RouterShutdown]\<rparr>)))"

subsection \<open>Interleavings\<close>

text \<open>
  The sequencer's mutex makes each public operation, and each iteration of the receiving
  loop, one step of an interleaving; a run is a list of such steps in the order they take the
  mutex. The dispatch of a dequeued directive, which \<open>receiveDirectiveLocked\<close> makes with the
  mutex released, counts to the step that dequeued it, and \<open>doShutdown\<close> with its join is one
  step.
\<close>

datatype op =
    OnDirective "AVSDirective option"
  | AddDirectiveHandler handler
  | RemoveDirectiveHandler handler
  | SetDialogRequestId string
  | GetDialogRequestId
  | Disable
  | Enable
  | ReceivingThread
  | Shutdown

fun apply_op :: "env \<Rightarrow> op \<Rightarrow> DirectiveSequencer \<Rightarrow> failure + DirectiveSequencer" where
  "apply_op e (OnDirective d) s = Inr (snd (onDirective d s))"
| "apply_op e (AddDirectiveHandler h) s = Inr (snd (addDirectiveHandler e h s))"
| "apply_op e (RemoveDirectiveHandler h) s = Inr (snd (removeDirectiveHandler e h s))"
| "apply_op e (SetDialogRequestId i) s = Inr (setDialogRequestId i s)"
| "apply_op e GetDialogRequestId s = Inr (snd (sequencer_getDialogRequestId e s))"
| "apply_op e Disable s = Inr (disable s)"
| "apply_op e Enable s = Inr (enable s)"
| "apply_op e ReceivingThread s = receivingLoop_step e s"
| "apply_op e Shutdown s = doShutdown e s"

fun run :: "env \<Rightarrow> op list \<Rightarrow> DirectiveSequencer \<Rightarrow> failure + DirectiveSequencer" where
  "run e [] s = Inr s"
| "run e (x # xs) s = bind_result (apply_op e x s) (run e xs)"

subsection \<open>Reading a run\<close>

text \<open>The directives handed to the router or the processor, in the order of the calls.\<close>

fun dispatched :: "call list \<Rightarrow> AVSDirective list" where
  "dispatched [] = []"
| "dispatched (ProcessorOnDirective d # cs) = d # dispatched cs"
| "dispatched (RouterHandleDirectiveImmediately d # cs) = d # dispatched cs"
| "dispatched (c # cs) = dispatched cs"

fun isDispatch :: "call \<Rightarrow> bool" where
  "isDispatch (ProcessorOnDirective d) = True"
| "isDispatch (RouterHandleDirectiveImmediately d) = True"
| "isDispatch c = False"

fun isSendExceptionEncountered :: "call \<Rightarrow> bool" where
  "isSendExceptionEncountered (SendExceptionEncountered u k m) = True"
| "isSendExceptionEncountered c = False"

text \<open>The directives for which \<open>onDirective\<close> returned true during a run, in that order.\<close>

fun accepted :: "env \<Rightarrow> op list \<Rightarrow> DirectiveSequencer \<Rightarrow> AVSDirective list" where
  "accepted e [] s = []"
| "accepted e (x # xs) s =
     (case x of
        OnDirective (Some d) \<Rightarrow> (if fst (onDirective (Some d) s) then [d] else [])
      | _ \<Rightarrow> []) @
     (case apply_op e x s of Inl err \<Rightarrow> [] | Inr s' \<Rightarrow> accepted e xs s')"

text \<open>
  What holds of a sequencer from its creation on: the exception sender is there while the
  receiving thread has not returned; the thread is joinable until it has returned, which it
  has exactly when the sequencer is shutting down; a power resource is acquired once, and
  released once the thread has returned.
\<close>

definition sequencer_inv :: "DirectiveSequencer \<Rightarrow> bool" where
  "sequencer_inv s =
     ((m_receivingThread_pc s \<noteq> Returned \<longrightarrow> m_exceptionSender s) \<and>
      m_receivingThread_joinable s = (m_receivingThread_pc s \<noteq> Returned) \<and>
      m_isShuttingDown s = (m_receivingThread_pc s = Returned) \<and>
      count_list (calls s) PowerAcquire = (if m_powerResource s then 1 else 0) \<and>
      count_list (calls s) PowerRelease =
        (if m_powerResource s \<and> m_receivingThread_pc s = Returned then 1 else 0))"

text \<open>The calls the receiving thread still makes when it is told to stop.\<close>

definition thread_exit_calls :: "DirectiveSequencer \<Rightarrow> call list" where
  "thread_exit_calls s =
     (if m_receivingThread_pc s = Returned then []
      else (if m_receivingThread_pc s = AtEntry then [AssignThreadPowerResource] else []) @
           [RemoveThreadPowerResource] @ (if m_powerResource s then [PowerRelease] else []))"

subsection \<open>A concrete sequencer\<close>

text \<open>
  The first scenario of section 8: no handler is registered, so neither the router nor the
  processor handles anything, and a directive \<open>Foo.Bar\<close> with an empty dialog request id.
\<close>

definition example_env :: env where
  "example_env =
     \<lparr> DIALOG_REQUEST_ID_IN_ALL_RESPONSE_DIRECTIVES = True,
       createLocalPowerResource = True,
       processorOnDirective = (\<lambda>cs d. False),
       processorGetDialogRequestId = (\<lambda>cs. []),
       routerHandleDirectiveImmediately = (\<lambda>cs d. False),
       routerAddDirectiveHandler = (\<lambda>cs h. True),
       routerRemoveDirectiveHandler = (\<lambda>cs h. True) \<rparr>"

definition example_directive :: AVSDirective where
  "example_directive =
     \<lparr> getName = ''Bar'', getDialogRequestId = [], getMessageId = ''m1'',
       getUnparsedDirective = ''Foo.Bar m1'', getHeaderAsString = ''Foo.Bar'' \<rparr>"

definition example_directive2 :: AVSDirective where
  "example_directive2 = example_directive\<lparr>getMessageId := ''m2'', getUnparsedDirective := ''Foo.Bar m2''\<rparr>"

text \<open>
  The same with a router and a processor that handle everything, and the directive with a
  dialog request id.
\<close>

definition example_env_handling :: env where
  "example_env_handling =
     example_env\<lparr>processorOnDirective := (\<lambda>cs d. True),
                 routerHandleDirectiveImmediately := (\<lambda>cs d. True)\<rparr>"

definition example_directive_dialog :: AVSDirective where
  "example_directive_dialog = example_directive\<lparr>getDialogRequestId := ''A''\<rparr>"

text \<open>The sequencer after its thread has entered the loop and one directive has come in.\<close>

definition example_sequencer :: DirectiveSequencer where
  "example_sequencer =
     \<lparr> m_exceptionSender = True, m_isShuttingDown = False, m_isEnabled = True,
       m_receivingQueue = [example_directive], m_powerResource = True,
       m_receivingThread_joinable = True, m_receivingThread_pc = InLoop,
       calls = [PowerAcquire, AssignThreadPowerResource, NotifyOne] \<rparr>"

section \<open>RegistrationManager/src/RegistrationManager.cpp\<close>

type_synonym observer = nat

text \<open>The calls \<open>logout\<close> makes on its collaborators, in the order made.\<close>

datatype rm_call =
    DirectiveSequencerDisable
  | ConnectionManagerDisable
  | DataManagerClearData
  | ObserverOnLogout observer
  | RecordMetric string

text \<open>
  The constructor stores its arguments as they come, null or not, and only logs a null one.
  The directive sequencer behind \<open>m_directiveSequencer\<close> is the one of the section above.
  \<open>m_observers\<close> is a set of shared pointers, whose type is declared in a header outside the
  sources; the list is the order in which the container hands out its elements when it is
  iterated, whatever that order is, and \<open>None\<close> a null pointer that was registered. Where
  \<open>insert\<close> places a new element in that order is not known, so \<open>addObserver\<close> has no
  definition here; \<open>erase\<close> leaves the order of the other elements as it is.
\<close>

record RegistrationManager =
  m_directiveSequencer :: "DirectiveSequencer option"
  m_connectionManager :: bool
  m_dataManager :: bool
  m_metricRecorder :: bool
  m_observers :: "observer option list"
  rm_calls :: "rm_call list"

definition RegistrationManager_new ::
    "DirectiveSequencer option \<Rightarrow> bool \<Rightarrow> bool \<Rightarrow> bool \<Rightarrow> RegistrationManager" where
  "RegistrationManager_new directiveSequencer connectionManager dataManager metricRecorder =
     \<lparr> m_directiveSequencer = directiveSequencer,
       m_connectionManager = connectionManager,
       m_dataManager = dataManager,
       m_metricRecorder = metricRecorder,
       m_observers = [],
       rm_calls = [] \<rparr>"

definition removeObserver :: "observer option \<Rightarrow> RegistrationManager \<Rightarrow> RegistrationManager" where
  "removeObserver obs rm = rm\<lparr>m_observers := removeAll obs (m_observers rm)\<rparr>"

text \<open>The loop of \<open>notifyObservers\<close> over the observers still to be called.\<close>

fun notifyObservers_loop ::
    "observer option list \<Rightarrow> RegistrationManager \<Rightarrow> failure + RegistrationManager" where
  "notifyObservers_loop [] rm = Inr rm"
| "notifyObservers_loop (None # rest) rm = Inl NullPointerDereference"
| "notifyObservers_loop (Some obs # rest) rm =
     notifyObservers_loop rest (rm\<lparr>rm_calls := rm_calls rm @ [ObserverOnLogout obs]\<rparr>)"

definition notifyObservers :: "RegistrationManager \<Rightarrow> failure + RegistrationManager" where
  "notifyObservers rm = notifyObservers_loop (m_observers rm) rm"

definition METRIC_SOURCE_PREFIX :: string where
  "METRIC_SOURCE_PREFIX = ''REGISTRATION_MANAGER-''"

definition LOGOUT_OCCURRED :: string where
  "LOGOUT_OCCURRED = ''LOGOUT_OCCURRED''"

text \<open>
  \<open>submitLogoutMetric\<close>; \<open>metricEvent\<close> tells whether the metric event builder, which is
  outside the file, returned an event.
\<close>

definition submitLogoutMetric :: "bool \<Rightarrow> RegistrationManager \<Rightarrow> RegistrationManager" where
  "submitLogoutMetric metricEvent rm =
     (if \<not> m_metricRecorder rm then rm
      else if \<not> metricEvent then rm
      else rm\<lparr>rm_calls := rm_calls rm @ [RecordMetric (METRIC_SOURCE_PREFIX @ LOGOUT_OCCURRED)]\<rparr>)"

text \<open>The statements of \<open>logout\<close> before \<open>notifyObservers\<close>, one definition each.\<close>

definition directiveSequencer_disable :: "RegistrationManager \<Rightarrow> failure + RegistrationManager" where
  "directiveSequencer_disable rm =
     (case m_directiveSequencer rm of
        None \<Rightarrow> Inl NullPointerDereference
      | Some ds \<Rightarrow> Inr (rm\<lparr>m_directiveSequencer := Some (disable ds),
                           rm_calls := rm_calls rm @ [DirectiveSequencerDisable]\<rparr>))"

definition connectionManager_disable :: "RegistrationManager \<Rightarrow> failure + RegistrationManager" where
  "connectionManager_disable rm =
     (if \<not> m_connectionManager rm then Inl NullPointerDereference
      else Inr (rm\<lparr>rm_calls := rm_calls rm @ [ConnectionManagerDisable]\<rparr>))"

definition dataManager_clearData :: "RegistrationManager \<Rightarrow> failure + RegistrationManager" where
  "dataManager_clearData rm =
     (if \<not> m_dataManager rm then Inl NullPointerDereference
      else Inr (rm\<lparr>rm_calls := rm_calls rm @ [DataManagerClearData]\<rparr>))"

definition logout :: "bool \<Rightarrow> RegistrationManager \<Rightarrow> failure + RegistrationManager" where
  "logout metricEvent rm =
     bind_result (directiveSequencer_disable rm) (\<lambda>rm1.
     bind_result (connectionManager_disable rm1) (\<lambda>rm2.
     bind_result (dataManager_clearData rm2) (\<lambda>rm3.
     bind_result (notifyObservers rm3) (\<lambda>rm4.
     Inr (submitLogoutMetric metricEvent rm4)))))"

subsection \<open>A concrete registration manager\<close>

text \<open>A manager over the sequencer above, with two observers.\<close>

definition example_manager :: RegistrationManager where
  "example_manager =
     \<lparr> m_directiveSequencer = Some example_sequencer,
       m_connectionManager = True, m_dataManager = True, m_metricRecorder = True,
       m_observers = [Some 7, Some 3], rm_calls = [] \<rparr>"

section \<open>AVSCommon/AVS/src/EndpointResources.cpp\<close>

subsection \<open>Data\<close>

definition MAX_FRIENDLY_NAME_LENGTH :: nat where
  "MAX_FRIENDLY_NAME_LENGTH = 128"

definition MAX_MANUFACTURER_NAME_LENGTH :: nat where
  "MAX_MANUFACTURER_NAME_LENGTH = 128"

definition MAX_DESCRIPTION_LENGTH :: nat where
  "MAX_DESCRIPTION_LENGTH = 128"

datatype LabelType = ASSET | TEXT

text \<open>
  The struct \<open>Label\<close> (fields \<open>type\<close>, \<open>value\<close>, \<open>locale\<close>). The type of a default-constructed
  label is not initialised: \<open>None\<close>. \<open>Optional<Locale>\<close> is a \<open>string option\<close>.
\<close>

record Label =
  label_type :: "LabelType option"
  label_value :: string
  label_locale :: "string option"

definition Label_default :: Label where
  "Label_default = \<lparr> label_type = None, label_value = [], label_locale = None \<rparr>"

text \<open>
  \<open>Optional::valueOr\<close>. \<open>Optional::value\<close> is \<open>valueOr\<close> with a default-constructed value,
  the empty string for a locale.
\<close>

definition valueOr :: "string option \<Rightarrow> string \<Rightarrow> string" where
  "valueOr opt other = (case opt of None \<Rightarrow> other | Some v \<Rightarrow> v)"

text \<open>\<open>Label::operator==\<close>: the type of the labels is not compared.\<close>

definition Label_eq :: "Label \<Rightarrow> Label \<Rightarrow> bool" where
  "Label_eq lhs rhs =
     (label_value lhs = label_value rhs \<and> valueOr (label_locale lhs) [] = valueOr (label_locale rhs) [])"

text \<open>\<open>std::find(first, last, label) != last\<close> with that operator.\<close>

definition found :: "Label list \<Rightarrow> Label \<Rightarrow> bool" where
  "found labels label = list_ex (\<lambda>x. Label_eq x label) labels"

text \<open>
  The object, and the entries its operations log at error level (event and reason), which are
  the places where they note an error. Entries at other levels are left out.
\<close>

record EndpointResources =
  m_isValid :: bool
  m_friendlyNames :: "Label list"
  m_manufacturerName :: Label
  m_description :: Label
  errorLog :: "(string \<times> string) list"

definition EndpointResources_new :: EndpointResources where
  "EndpointResources_new =
     \<lparr> m_isValid = True, m_friendlyNames = [], m_manufacturerName = Label_default,
       m_description = Label_default, errorLog = [] \<rparr>"

text \<open>\<open>ACSDK_ERROR(LX(event).d("reason", reason)); m_isValid = false;\<close>\<close>

definition noteError :: "string \<Rightarrow> string \<Rightarrow> EndpointResources \<Rightarrow> EndpointResources" where
  "noteError event reason r = r\<lparr>m_isValid := False, errorLog := errorLog r @ [(event, reason)]\<rparr>"

subsection \<open>The add operations\<close>

definition addFriendlyNameWithAssetId :: "string \<Rightarrow> EndpointResources \<Rightarrow> EndpointResources" where
  "addFriendlyNameWithAssetId assetId r =
     (if length assetId = 0 then noteError ''addFriendlyNameWithAssetIdFailed'' ''invalidAssetId'' r
      else if found (m_friendlyNames r) \<lparr>label_type = Some ASSET, label_value = assetId, label_locale = None\<rparr>
      then noteError ''addFriendlyNameWithAssetIdFailed'' ''duplicateAssetId'' r
      else r\<lparr>m_friendlyNames := m_friendlyNames r @
                [\<lparr>label_type = Some ASSET, label_value = assetId, label_locale = None\<rparr>]\<rparr>)"

definition addFriendlyNameWithText :: "string \<Rightarrow> string \<Rightarrow> EndpointResources \<Rightarrow> EndpointResources" where
  "addFriendlyNameWithText text locale r =
     (if length text = 0 \<or> length text > MAX_FRIENDLY_NAME_LENGTH
      then noteError ''addFriendlyNameWithTextFailed'' ''invalidText'' r
      else if locale = [] then noteError ''addFriendlyNameWithTextFailed'' ''invalidLocale'' r
      else if found (m_friendlyNames r) \<lparr>label_type = Some TEXT, label_value = text, label_locale = Some locale\<rparr>
      then r
      else r\<lparr>m_friendlyNames := m_friendlyNames r @
                [\<lparr>label_type = Some TEXT, label_value = text, label_locale = Some locale\<rparr>]\<rparr>)"

definition addManufacturerNameWithAssetId :: "string \<Rightarrow> EndpointResources \<Rightarrow> EndpointResources" where
  "addManufacturerNameWithAssetId assetId r =
     (if length assetId = 0 then noteError ''addManufacturerNameWithAssetIdFailed'' ''invalidAssetId'' r
      else if length (label_value (m_manufacturerName r)) \<noteq> 0
      then noteError ''addManufacturerNameWithAssetIdFailed'' ''manufacturerNameAlreadyExists'' r
      else r\<lparr>m_manufacturerName := \<lparr>label_type = Some ASSET, label_value = assetId, label_locale = None\<rparr>\<rparr>)"

definition addManufacturerNameWithText :: "string \<Rightarrow> string \<Rightarrow> EndpointResources \<Rightarrow> EndpointResources" where
  "addManufacturerNameWithText text locale r =
     (let r1 = (if length text = 0 \<or> length text > MAX_MANUFACTURER_NAME_LENGTH
                then noteError ''addManufacturerNameWithTextFailed'' ''invalidText'' r else r);
          r2 = (if locale = [] then noteError ''addManufacturerNameWithTextFailed'' ''invalidLocale'' r1 else r1)
      in if length (label_value (m_manufacturerName r2)) \<noteq> 0
         then noteError ''addManufacturerNameWithAssetIdFailed'' ''manufacturerNameAlreadyExists'' r2
         else r2\<lparr>m_manufacturerName := \<lparr>label_type = Some TEXT, label_value = text, label_locale = Some locale\<rparr>\<rparr>)"

definition addDescriptionWithAssetId :: "string \<Rightarrow> EndpointResources \<Rightarrow> EndpointResources" where
  "addDescriptionWithAssetId assetId r =
     (if length assetId = 0 then noteError ''addDescriptionWithAssetIdFailed'' ''invalidAssetId'' r
      else if length (label_value (m_description r)) \<noteq> 0
      then noteError ''addDescriptionWithAssetIdFailed'' ''descriptionAlreadyExists'' r
      else r\<lparr>m_description := \<lparr>label_type = Some ASSET, label_value = assetId, label_locale = None\<rparr>\<rparr>)"

definition addDescriptionWithText :: "string \<Rightarrow> string \<Rightarrow> EndpointResources \<Rightarrow> EndpointResources" where
  "addDescriptionWithText text locale r =
     (let r1 = (if length text = 0 \<or> length text > MAX_DESCRIPTION_LENGTH
                then noteError ''addDescriptionWithTextFailed'' ''invalidText'' r else r);
          r2 = (if locale = [] then noteError ''addDescriptionWithTextFailed'' ''invalidLocale'' r1 else r1)
      in if length (label_value (m_description r2)) \<noteq> 0
         then noteError ''addDescriptionWithAssetIdFailed'' ''descriptionAlreadyExists'' r2
         else r2\<lparr>m_description := \<lparr>label_type = Some TEXT, label_value = text, label_locale = Some locale\<rparr>\<rparr>)"

subsection \<open>Validity and the JSON text\<close>

definition isValid :: "EndpointResources \<Rightarrow> bool" where
  "isValid r =
     (m_isValid r \<and> length (m_friendlyNames r) > 0 \<and> length (label_value (m_description r)) > 0
      \<and> length (label_value (m_manufacturerName r)) > 0)"

text \<open>
  The class \<open>json::JsonGenerator\<close> is outside the file: its constructor and the member
  functions the file calls are parameters, over the generator's own state.
\<close>

record 'g JsonGenerator =
  newGenerator :: 'g
  addMember :: "string \<Rightarrow> string \<Rightarrow> 'g \<Rightarrow> 'g"
  startObject :: "string \<Rightarrow> 'g \<Rightarrow> 'g"
  addMembersArray :: "string \<Rightarrow> string list \<Rightarrow> 'g \<Rightarrow> 'g"
  addRawJsonMember :: "string \<Rightarrow> string \<Rightarrow> 'g \<Rightarrow> 'g"
  toString :: "'g \<Rightarrow> string"

definition toJson :: "'g JsonGenerator \<Rightarrow> Label \<Rightarrow> string" where
  "toJson j l =
     (case label_type l of
        Some TEXT \<Rightarrow>
          toString j (addMember j ''locale'' (valueOr (label_locale l) [])
            (addMember j ''text'' (label_value l)
              (startObject j ''value''
                (addMember j ''@type'' ''text'' (newGenerator j)))))
      | Some ASSET \<Rightarrow>
          toString j (addMember j ''assetId'' (label_value l)
            (startObject j ''value''
              (addMember j ''@type'' ''asset'' (newGenerator j))))
      | None \<Rightarrow> ''{}'')"

definition build :: "'g JsonGenerator \<Rightarrow> EndpointResources \<Rightarrow> string" where
  "build j r =
     (if \<not> isValid r then []
      else toString j
             (addRawJsonMember j ''description'' (toJson j (m_description r))
               (addRawJsonMember j ''manufacturerName'' (toJson j (m_manufacturerName r))
                 (addMembersArray j ''friendlyNames'' (map (toJson j) (m_friendlyNames r))
                   (newGenerator j)))))"

subsection \<open>Sequences of add operations\<close>

datatype er_op =
    AddFriendlyNameWithAssetId string
  | AddFriendlyNameWithText string string
  | AddManufacturerNameWithAssetId string
  | AddManufacturerNameWithText string string
  | AddDescriptionWithAssetId string
  | AddDescriptionWithText string string

fun er_apply :: "er_op \<Rightarrow> EndpointResources \<Rightarrow> EndpointResources" where
  "er_apply (AddFriendlyNameWithAssetId a) r = addFriendlyNameWithAssetId a r"
| "er_apply (AddFriendlyNameWithText t l) r = addFriendlyNameWithText t l r"
| "er_apply (AddManufacturerNameWithAssetId a) r = addManufacturerNameWithAssetId a r"
| "er_apply (AddManufacturerNameWithText t l) r = addManufacturerNameWithText t l r"
| "er_apply (AddDescriptionWithAssetId a) r = addDescriptionWithAssetId a r"
| "er_apply (AddDescriptionWithText t l) r = addDescriptionWithText t l r"

text \<open>The chained calls \<open>EndpointResources().op1(...).op2(...)...\<close>, first call first.\<close>

definition er_run :: "er_op list \<Rightarrow> EndpointResources" where
  "er_run ops = foldl (\<lambda>r x. er_apply x r) EndpointResources_new ops"

fun isFriendlyNameOp :: "er_op \<Rightarrow> bool" where
  "isFriendlyNameOp (AddFriendlyNameWithAssetId a) = True"
| "isFriendlyNameOp (AddFriendlyNameWithText t l) = True"
| "isFriendlyNameOp x = False"

fun isManufacturerNameOp :: "er_op \<Rightarrow> bool" where
  "isManufacturerNameOp (AddManufacturerNameWithAssetId a) = True"
| "isManufacturerNameOp (AddManufacturerNameWithText t l) = True"
| "isManufacturerNameOp x = False"

fun isDescriptionOp :: "er_op \<Rightarrow> bool" where
  "isDescriptionOp (AddDescriptionWithAssetId a) = True"
| "isDescriptionOp (AddDescriptionWithText t l) = True"
| "isDescriptionOp x = False"

text \<open>
  What holds after the operations \<open>xs\<close>: the validity flag is set exactly when no error was
  logged, and as long as none was, each of the three parts is there exactly when an operation
  for it was called.
\<close>

definition er_inv :: "er_op list \<Rightarrow> EndpointResources \<Rightarrow> bool" where
  "er_inv xs r =
     (m_isValid r = (errorLog r = []) \<and>
      (errorLog r = [] \<longrightarrow>
         (m_friendlyNames r \<noteq> []) = list_ex isFriendlyNameOp xs \<and>
         (label_value (m_manufacturerName r) \<noteq> []) = list_ex isManufacturerNameOp xs \<and>
         (label_value (m_description r) \<noteq> []) = list_ex isDescriptionOp xs))"

subsection \<open>A concrete generator and object\<close>

text \<open>
  A generator that writes its members one after the other into a text, to have one at hand;
  nothing is claimed of its output beyond what the theorems ask of a generator.
\<close>

definition example_generator :: "string JsonGenerator" where
  "example_generator =
     \<lparr> newGenerator = ''{'',
       addMember = (\<lambda>k v g. g @ k @ '':'' @ v @ '',''),
       startObject = (\<lambda>k g. g @ k @ '':{''),
       addMembersArray = (\<lambda>k vs g. g @ k @ '':['' @ concat vs @ ''],''),
       addRawJsonMember = (\<lambda>k v g. g @ k @ '':'' @ v @ '',''),
       toString = (\<lambda>g. g @ ''}'') \<rparr>"

definition example_ops :: "er_op list" where
  "example_ops =
     [AddFriendlyNameWithText ''lamp'' ''en-US'',
      AddFriendlyNameWithText ''lamp'' ''en-US'',
      AddManufacturerNameWithText ''acme'' ''en-US'',
      AddDescriptionWithAssetId ''Alexa.Desc'']"

section \<open>Properties of the directive sequencer\<close>

subsection \<open>Auxiliary facts\<close>

lemma bind_result_Inr [simp]: "bind_result (Inr v) f = f v"
  by (simp add: bind_result_def)

lemma bind_result_Inl [simp]: "bind_result (Inl err) f = Inl err"
  by (simp add: bind_result_def)

lemma join_Returned:
  "m_receivingThread_pc s = Returned \<Longrightarrow> join e s = Inr (s\<lparr>m_receivingThread_joinable := False\<rparr>)"
  by (subst join.simps) simp

lemma join_InLoop:
  assumes "m_receivingThread_pc s = InLoop" and "m_isShuttingDown s"
  shows "join e s = Inr ((receivingLoop_exit s)\<lparr>m_receivingThread_joinable := False\<rparr>)"
proof -
  have step: "receivingLoop_step e s = Inr (receivingLoop_exit s)"
    using assms by (simp add: receivingLoop_step_def wake_def)
  have "join e s = join e (receivingLoop_exit s)"
    using assms step by (subst join.simps) (simp add: wake_def)
  also have "\<dots> = Inr ((receivingLoop_exit s)\<lparr>m_receivingThread_joinable := False\<rparr>)"
    by (rule join_Returned) (simp add: receivingLoop_exit_def)
  finally show ?thesis .
qed

lemma join_AtEntry:
  assumes "m_receivingThread_pc s = AtEntry" and "m_isShuttingDown s"
  shows "join e s =
     Inr ((receivingLoop_exit (s\<lparr>m_receivingThread_pc := InLoop,
            calls := calls s @ [AssignThreadPowerResource]\<rparr>))\<lparr>m_receivingThread_joinable := False\<rparr>)"
proof -
  have "join e s = join e (s\<lparr>m_receivingThread_pc := InLoop, calls := calls s @ [AssignThreadPowerResource]\<rparr>)"
    using assms by (subst join.simps) (simp add: receivingLoop_step_def)
  also have "\<dots> = Inr ((receivingLoop_exit (s\<lparr>m_receivingThread_pc := InLoop,
            calls := calls s @ [AssignThreadPowerResource]\<rparr>))\<lparr>m_receivingThread_joinable := False\<rparr>)"
    using assms by (intro join_InLoop) simp_all
  finally show ?thesis .
qed

lemma doShutdown_total:
  "\<exists>s'. doShutdown e s = Inr s' \<and>
        m_isShuttingDown s' \<and> \<not> m_exceptionSender s' \<and>
        m_receivingQueue s' = m_receivingQueue s \<and> m_isEnabled s' = m_isEnabled s \<and>
        m_powerResource s' = m_powerResource s \<and>
        (m_receivingThread_joinable s \<longrightarrow> m_receivingThread_pc s' = Returned \<and> \<not> m_receivingThread_joinable s') \<and>
        (\<not> m_receivingThread_joinable s \<longrightarrow> m_receivingThread_pc s' = m_receivingThread_pc s \<and> \<not> m_receivingThread_joinable s') \<and>
        calls s' = calls s @ [NotifyOne] @ (if m_receivingThread_joinable s then thread_exit_calls s else [])
                   @ [ProcessorShutdown, RouterShutdown]"
proof (cases "m_receivingThread_joinable s")
  case False
  then show ?thesis by (simp add: doShutdown_def Let_def)
next
  case True
  show ?thesis
  proof (cases "m_receivingThread_pc s")
    case AtEntry
    with True show ?thesis
      by (simp add: doShutdown_def Let_def join_AtEntry receivingLoop_exit_def thread_exit_calls_def)
  next
    case InLoop
    with True show ?thesis
      by (simp add: doShutdown_def Let_def join_InLoop receivingLoop_exit_def thread_exit_calls_def)
  next
    case Returned
    with True show ?thesis
      by (simp add: doShutdown_def Let_def join_Returned thread_exit_calls_def)
  qed
qed

lemma receiveDirectiveLocked_Cons:
  assumes "m_receivingQueue s = d # rest" and "m_exceptionSender s"
  shows "receiveDirectiveLocked e s =
     Inr (s\<lparr>m_receivingQueue := rest,
            calls := calls s @ snd (handled e (calls s) d) #
              (if fst (handled e (calls s) d) then []
               else [SendExceptionEncountered (getUnparsedDirective d) UNSUPPORTED_OPERATION
                       ''Unsupported operation''])\<rparr>)"
  using assms by (simp add: receiveDirectiveLocked_def split: prod.splits)

lemma handled_snd_cases:
  "snd (handled e cs d) = RouterHandleDirectiveImmediately d \<or> snd (handled e cs d) = ProcessorOnDirective d"
  by (simp add: handled_def)

lemma receivingLoop_step_inv:
  assumes "sequencer_inv s"
  shows "\<exists>s'. receivingLoop_step e s = Inr s' \<and> sequencer_inv s'"
proof (cases "m_receivingThread_pc s")
  case AtEntry
  with assms show ?thesis by (simp add: receivingLoop_step_def sequencer_inv_def)
next
  case Returned
  with assms show ?thesis by (simp add: receivingLoop_step_def)
next
  case InLoop
  show ?thesis
  proof (cases "m_receivingQueue s")
    case Nil
    with InLoop assms show ?thesis
      by (simp add: receivingLoop_step_def wake_def sequencer_inv_def)
  next
    case (Cons d rest)
    have sender: "m_exceptionSender s" using assms InLoop by (simp add: sequencer_inv_def)
    have nsd: "\<not> m_isShuttingDown s" using assms InLoop by (simp add: sequencer_inv_def)
    have "snd (handled e (calls s) d) \<noteq> PowerAcquire" "snd (handled e (calls s) d) \<noteq> PowerRelease"
      using handled_snd_cases [of e "calls s" d] by auto
    then show ?thesis
      using assms InLoop nsd
      by (simp add: receivingLoop_step_def wake_def Cons receiveDirectiveLocked_Cons [OF Cons sender]
          sequencer_inv_def)
  qed
qed

lemma apply_op_inv:
  assumes "sequencer_inv s"
  shows "\<exists>s'. apply_op e x s = Inr s' \<and> sequencer_inv s'"
proof (cases x)
  case (OnDirective d)
  with assms show ?thesis
    by (simp add: onDirective_def sequencer_inv_def split: option.splits)
next
  case ReceivingThread
  with assms show ?thesis by (simp add: receivingLoop_step_inv)
next
  case Shutdown
  obtain s' where s': "doShutdown e s = Inr s'"
    "m_isShuttingDown s'" "\<not> m_exceptionSender s'" "m_powerResource s' = m_powerResource s"
    "m_receivingThread_joinable s \<longrightarrow> m_receivingThread_pc s' = Returned \<and> \<not> m_receivingThread_joinable s'"
    "\<not> m_receivingThread_joinable s \<longrightarrow> m_receivingThread_pc s' = m_receivingThread_pc s \<and> \<not> m_receivingThread_joinable s'"
    "calls s' = calls s @ [NotifyOne] @ (if m_receivingThread_joinable s then thread_exit_calls s else [])
                   @ [ProcessorShutdown, RouterShutdown]"
    using doShutdown_total [of e s] by blast
  have "sequencer_inv s'"
    using assms s'(2-) by (auto simp: sequencer_inv_def thread_exit_calls_def)
  with s'(1) Shutdown show ?thesis by simp
qed (use assms in \<open>simp_all add: sequencer_inv_def addDirectiveHandler_def removeDirectiveHandler_def
      setDialogRequestId_def sequencer_getDialogRequestId_def disable_def enable_def\<close>)

lemma run_inv:
  "sequencer_inv s \<Longrightarrow> \<exists>s'. run e xs s = Inr s' \<and> sequencer_inv s'"
proof (induction xs arbitrary: s)
  case Nil
  then show ?case by simp
next
  case (Cons x xs)
  from apply_op_inv [OF Cons.prems, of e x]
  obtain s1 where "apply_op e x s = Inr s1" "sequencer_inv s1" by blast
  with Cons.IH [of s1] show ?case by simp
qed


lemma created_inv:
  assumes "create e exceptionSender = Some s0 \<or>
           createDirectiveSequencerInterface e exceptionSender shutdownNotifier = Some s0"
  shows "sequencer_inv s0 \<and> \<not> m_isShuttingDown s0 \<and> m_receivingQueue s0 = [] \<and> dispatched (calls s0) = []
         \<and> m_powerResource s0 = createLocalPowerResource e"
  using assms
  by (auto simp: create_def createDirectiveSequencerInterface_def Let_def sequencer_inv_def
      DirectiveSequencer_new_def split: if_splits)

lemma apply_op_keeps_disabled:
  assumes "apply_op e x s = Inr s'" and "\<not> m_isEnabled s" and "x \<noteq> Enable"
  shows "\<not> m_isEnabled s'"
proof (cases x)
  case Shutdown
  with assms doShutdown_total [of e s] show ?thesis by auto
next
  case ReceivingThread
  with assms show ?thesis
    by (auto simp: receivingLoop_step_def receivingLoop_exit_def receiveDirectiveLocked_def
        split: thread_pc.splits if_splits list.splits prod.splits)
qed (use assms in \<open>auto simp: onDirective_def addDirectiveHandler_def removeDirectiveHandler_def
      setDialogRequestId_def sequencer_getDialogRequestId_def disable_def split: option.splits if_splits\<close>)

lemma run_keeps_disabled:
  "run e xs s = Inr s' \<Longrightarrow> \<not> m_isEnabled s \<Longrightarrow> Enable \<notin> set xs \<Longrightarrow> \<not> m_isEnabled s'"
proof (induction xs arbitrary: s)
  case Nil
  then show ?case by simp
next
  case (Cons x xs)
  then obtain s1 where s1: "apply_op e x s = Inr s1" "run e xs s1 = Inr s'"
    by (cases "apply_op e x s") auto
  have "x \<noteq> Enable" using Cons.prems by auto
  from apply_op_keeps_disabled [OF s1(1) Cons.prems(2) this] have "\<not> m_isEnabled s1" .
  with Cons.IH [OF s1(2)] Cons.prems show ?case by simp
qed

lemma run_append:
  "run e (xs @ ys) s = bind_result (run e xs s) (run e ys)"
  by (induction xs arbitrary: s) (auto simp: bind_result_def split: sum.splits)

lemma apply_op_shuttingDown:
  assumes "apply_op e x s = Inr s'" and "x \<noteq> Shutdown"
  shows "m_isShuttingDown s' = m_isShuttingDown s"
proof (cases x)
  case ReceivingThread
  with assms show ?thesis
    by (auto simp: receivingLoop_step_def receivingLoop_exit_def receiveDirectiveLocked_def
        split: thread_pc.splits if_splits list.splits prod.splits)
qed (use assms in \<open>auto simp: onDirective_def addDirectiveHandler_def removeDirectiveHandler_def
      setDialogRequestId_def sequencer_getDialogRequestId_def disable_def enable_def
      split: option.splits if_splits\<close>)

lemma run_shuttingDown:
  "run e xs s = Inr s' \<Longrightarrow> Shutdown \<notin> set xs \<Longrightarrow> m_isShuttingDown s' = m_isShuttingDown s"
proof (induction xs arbitrary: s)
  case Nil
  then show ?case by simp
next
  case (Cons x xs)
  then obtain s1 where s1: "apply_op e x s = Inr s1" "run e xs s1 = Inr s'"
    by (cases "apply_op e x s") auto
  have "x \<noteq> Shutdown" using Cons.prems by auto
  from apply_op_shuttingDown [OF s1(1) this] Cons.IH [OF s1(2)] Cons.prems show ?case by simp
qed

lemma apply_op_powerResource:
  assumes "apply_op e x s = Inr s'"
  shows "m_powerResource s' = m_powerResource s"
proof (cases x)
  case Shutdown
  with assms doShutdown_total [of e s] show ?thesis by auto
next
  case ReceivingThread
  with assms show ?thesis
    by (auto simp: receivingLoop_step_def receivingLoop_exit_def receiveDirectiveLocked_def
        split: thread_pc.splits if_splits list.splits prod.splits)
qed (use assms in \<open>auto simp: onDirective_def addDirectiveHandler_def removeDirectiveHandler_def
      setDialogRequestId_def sequencer_getDialogRequestId_def disable_def enable_def
      split: option.splits if_splits\<close>)

lemma run_powerResource:
  "run e xs s = Inr s' \<Longrightarrow> m_powerResource s' = m_powerResource s"
proof (induction xs arbitrary: s)
  case Nil
  then show ?case by simp
next
  case (Cons x xs)
  then obtain s1 where s1: "apply_op e x s = Inr s1" "run e xs s1 = Inr s'"
    by (cases "apply_op e x s") auto
  from apply_op_powerResource [OF s1(1)] Cons.IH [OF s1(2)] show ?case by simp
qed

lemma run_stays_shuttingDown:
  "run e zs t = Inr t' \<Longrightarrow> m_isShuttingDown t \<Longrightarrow> m_isShuttingDown t'"
proof (induction zs arbitrary: t)
  case Nil
  then show ?case by simp
next
  case (Cons z zs)
  then obtain t1 where t1: "apply_op e z t = Inr t1" "run e zs t1 = Inr t'"
    by (cases "apply_op e z t") auto
  have "m_isShuttingDown t1"
  proof (cases "z = Shutdown")
    case True
    with t1(1) doShutdown_total [of e t] show ?thesis by auto
  next
    case False
    from apply_op_shuttingDown [OF t1(1) False] Cons.prems(2) show ?thesis by simp
  qed
  with Cons.IH [OF t1(2)] show ?case .
qed

lemma dispatched_append: "dispatched (cs @ ds) = dispatched cs @ dispatched ds"
  by (induction cs rule: dispatched.induct) simp_all

lemma dispatched_handled: "dispatched (snd (handled e cs d) # cs') = d # dispatched cs'"
  by (simp add: handled_def)

lemma dispatched_thread_exit_calls: "dispatched (thread_exit_calls s) = []"
  by (simp add: thread_exit_calls_def)

lemma fifo_step:
  assumes "sequencer_inv s" and "apply_op e x s = Inr s'"
  shows "dispatched (calls s') @ m_receivingQueue s' =
         dispatched (calls s) @ m_receivingQueue s @
           (case x of OnDirective (Some d) \<Rightarrow> (if fst (onDirective (Some d) s) then [d] else []) | _ \<Rightarrow> [])"
proof (cases x)
  case (OnDirective d)
  with assms(2) show ?thesis
    by (auto simp: onDirective_def dispatched_append split: option.splits)
next
  case Shutdown
  with assms(2) doShutdown_total [of e s] show ?thesis
    by (auto simp: dispatched_append dispatched_thread_exit_calls)
next
  case ReceivingThread
  show ?thesis
  proof (cases "m_receivingThread_pc s = InLoop \<and> m_receivingQueue s \<noteq> [] \<and> \<not> m_isShuttingDown s")
    case False
    with assms(2) ReceivingThread show ?thesis
      by (auto simp: receivingLoop_step_def receivingLoop_exit_def wake_def dispatched_append
          split: thread_pc.splits if_splits)
  next
    case True
    then obtain d rest where q: "m_receivingQueue s = d # rest"
      by (cases "m_receivingQueue s") auto
    have sender: "m_exceptionSender s" using assms(1) True by (simp add: sequencer_inv_def)
    have "receivingLoop_step e s = receiveDirectiveLocked e s"
      using True by (simp add: receivingLoop_step_def wake_def)
    with assms(2) ReceivingThread receiveDirectiveLocked_Cons [OF q sender, of e]
    have "s' = s\<lparr>m_receivingQueue := rest,
            calls := calls s @ snd (handled e (calls s) d) #
              (if fst (handled e (calls s) d) then []
               else [SendExceptionEncountered (getUnparsedDirective d) UNSUPPORTED_OPERATION
                       ''Unsupported operation''])\<rparr>"
      by simp
    then show ?thesis
      using q ReceivingThread
      by (simp add: dispatched_append dispatched_handled)
  qed
qed (use assms(2) in \<open>auto simp: addDirectiveHandler_def removeDirectiveHandler_def
      setDialogRequestId_def sequencer_getDialogRequestId_def disable_def enable_def dispatched_append\<close>)

lemma fifo_run:
  "sequencer_inv s \<Longrightarrow>
   \<exists>s'. run e xs s = Inr s' \<and>
        dispatched (calls s') @ m_receivingQueue s' =
          dispatched (calls s) @ m_receivingQueue s @ accepted e xs s"
proof (induction xs arbitrary: s)
  case Nil
  then show ?case by simp
next
  case (Cons x xs)
  from apply_op_inv [OF Cons.prems, of e x]
  obtain s1 where s1: "apply_op e x s = Inr s1" "sequencer_inv s1" by blast
  from Cons.IH [OF s1(2)]
  obtain s' where s': "run e xs s1 = Inr s'"
    "dispatched (calls s') @ m_receivingQueue s' =
       dispatched (calls s1) @ m_receivingQueue s1 @ accepted e xs s1" by blast
  from fifo_step [OF Cons.prems s1(1)] s' s1(1)
  show ?case by simp
qed

lemma drain:
  "sequencer_inv s \<Longrightarrow> \<not> m_isShuttingDown s \<Longrightarrow>
   length (m_receivingQueue s) + (if m_receivingThread_pc s = AtEntry then 1 else 0) \<le> n \<Longrightarrow>
   \<exists>s'. run e (replicate n ReceivingThread) s = Inr s' \<and> m_receivingQueue s' = [] \<and>
        dispatched (calls s') = dispatched (calls s) @ m_receivingQueue s"
proof (induction n arbitrary: s)
  case 0
  then show ?case by simp
next
  case (Suc n)
  obtain s1 where s1: "receivingLoop_step e s = Inr s1" "sequencer_inv s1"
    using receivingLoop_step_inv [OF Suc.prems(1)] by blast
  have nsd1: "\<not> m_isShuttingDown s1"
    using apply_op_shuttingDown [of e ReceivingThread s s1] s1(1) Suc.prems(2) by simp
  have fifo: "dispatched (calls s1) @ m_receivingQueue s1 = dispatched (calls s) @ m_receivingQueue s"
    using fifo_step [OF Suc.prems(1), of e ReceivingThread s1] s1(1) by simp
  have pc: "m_receivingThread_pc s \<noteq> Returned"
    using Suc.prems(1,2) by (simp add: sequencer_inv_def)
  have less: "length (m_receivingQueue s1) + (if m_receivingThread_pc s1 = AtEntry then 1 else 0) \<le> n"
  proof (cases "m_receivingThread_pc s")
    case AtEntry
    with s1(1) Suc.prems(3) show ?thesis by (auto simp: receivingLoop_step_def)
  next
    case InLoop
    show ?thesis
    proof (cases "m_receivingQueue s")
      case Nil
      with InLoop s1(1) Suc.prems(2) show ?thesis by (auto simp: receivingLoop_step_def wake_def)
    next
      case (Cons d rest)
      have sender: "m_exceptionSender s" using Suc.prems(1) InLoop by (simp add: sequencer_inv_def)
      from InLoop Cons s1(1) Suc.prems(2,3) receiveDirectiveLocked_Cons [OF Cons sender, of e]
      show ?thesis by (auto simp: receivingLoop_step_def wake_def)
    qed
  next
    case Returned
    with pc show ?thesis by simp
  qed
  from Suc.IH [OF s1(2) nsd1 less]
  obtain s' where s': "run e (replicate n ReceivingThread) s1 = Inr s'" "m_receivingQueue s' = []"
    "dispatched (calls s') = dispatched (calls s1) @ m_receivingQueue s1" by blast
  from s' s1(1) fifo show ?case by simp
qed

subsection \<open>Intake\<close>

text \<open>
  Claim C1. \<open>onDirective\<close> returns false exactly when the directive is null, the sequencer is
  shutting down, or it is disabled; otherwise it returns true and the directive is put at the
  back of the intake queue, and when it returns false nothing changes. For a sequencer made by
  \<open>create\<close> or \<open>createDirectiveSequencerInterface\<close>: after any run, a \<open>disable\<close>, and any
  further run without \<open>enable\<close>, \<open>onDirective\<close> returns false for every directive and
  leaves the sequencer as it is.
\<close>

theorem onDirective_rejects_iff:
  assumes "create e exceptionSender = Some s0 \<or>
           createDirectiveSequencerInterface e exceptionSender shutdownNotifier = Some s0"
    and "Enable \<notin> set later"
  shows "(\<not> fst (onDirective directive s)) = (directive = None \<or> m_isShuttingDown s \<or> \<not> m_isEnabled s) \<and>
         (if fst (onDirective directive s)
          then m_receivingQueue (snd (onDirective directive s)) =
                 m_receivingQueue s @ (case directive of None \<Rightarrow> [] | Some d \<Rightarrow> [d])
          else snd (onDirective directive s) = s) \<and>
         (\<exists>s'. run e (earlier @ Disable # later) s0 = Inr s' \<and> onDirective directive s' = (False, s'))"
proof -
  have a: "(\<not> fst (onDirective directive s)) = (directive = None \<or> m_isShuttingDown s \<or> \<not> m_isEnabled s)"
    by (simp add: onDirective_def split: option.splits)
  have b: "(if fst (onDirective directive s)
          then m_receivingQueue (snd (onDirective directive s)) =
                 m_receivingQueue s @ (case directive of None \<Rightarrow> [] | Some d \<Rightarrow> [d])
          else snd (onDirective directive s) = s)"
    by (simp add: onDirective_def split: option.splits)
  have "sequencer_inv s0" using created_inv assms(1) by blast
  then obtain s1 where s1: "run e earlier s0 = Inr s1" "sequencer_inv s1"
    using run_inv by blast
  have "sequencer_inv (disable s1)"
    using apply_op_inv [OF s1(2), of e Disable] by simp
  then obtain s' where s': "run e later (disable s1) = Inr s'"
    using run_inv by blast
  have "\<not> m_isEnabled s'"
    using run_keeps_disabled [OF s' _ assms(2)] by (simp add: disable_def)
  then have "onDirective directive s' = (False, s')"
    by (simp add: onDirective_def split: option.splits)
  moreover have "run e (earlier @ Disable # later) s0 = Inr s'"
    using s1(1) s' by (simp add: run_append)
  ultimately show ?thesis using a b by blast
qed

theorem onDirective_rejects_iff_witness:
  "fst (onDirective (Some example_directive) example_sequencer) \<and>
   m_receivingQueue (snd (onDirective (Some example_directive) example_sequencer)) =
     [example_directive, example_directive] \<and>
   (\<exists>s'. run example_env ([ReceivingThread] @ Disable # [OnDirective (Some example_directive), ReceivingThread])
            (DirectiveSequencer_new example_env True) = Inr s' \<and>
         onDirective (Some example_directive) s' = (False, s'))"
  using onDirective_rejects_iff [of example_env True "DirectiveSequencer_new example_env True" True
      "[OnDirective (Some example_directive), ReceivingThread]" "Some example_directive"
      example_sequencer "[ReceivingThread]"]
  by (simp add: create_def example_sequencer_def onDirective_def)

subsection \<open>Dispatch by the receiving thread\<close>

text \<open>
  Claim C2. Take a sequencer made by \<open>create\<close> or \<open>createDirectiveSequencerInterface\<close>,
  after any run, whose receiving thread is in its loop with a directive at the front of the
  queue. The next iteration of the loop dispatches that directive: to the router's
  \<open>handleDirectiveImmediately\<close> when the build option is set and the dialog request id is
  empty, to the processor's \<open>onDirective\<close> otherwise. If that call answers false, the
  exception sender is called exactly once, with the directive's unparsed text,
  \<open>UNSUPPORTED_OPERATION\<close> and the message \<open>Unsupported operation\<close>; if it answers true, the
  exception sender is not called.
\<close>

theorem unhandled_directive_reported_once:
  assumes "create e exceptionSender = Some s0 \<or>
           createDirectiveSequencerInterface e exceptionSender shutdownNotifier = Some s0"
    and "run e xs s0 = Inr s"
    and "m_receivingThread_pc s = InLoop"
    and "m_receivingQueue s = directive # rest"
  shows "\<exists>s'. receivingLoop_step e s = Inr s' \<and>
           run e (xs @ [ReceivingThread]) s0 = Inr s' \<and>
           (if DIALOG_REQUEST_ID_IN_ALL_RESPONSE_DIRECTIVES e \<and> getDialogRequestId directive = []
            then calls s' = calls s @ RouterHandleDirectiveImmediately directive #
                   (if routerHandleDirectiveImmediately e (calls s) directive then []
                    else [SendExceptionEncountered (getUnparsedDirective directive) UNSUPPORTED_OPERATION
                            ''Unsupported operation''])
            else calls s' = calls s @ ProcessorOnDirective directive #
                   (if processorOnDirective e (calls s) directive then []
                    else [SendExceptionEncountered (getUnparsedDirective directive) UNSUPPORTED_OPERATION
                            ''Unsupported operation''])) \<and>
           filter isSendExceptionEncountered (drop (length (calls s)) (calls s')) =
             (if (if DIALOG_REQUEST_ID_IN_ALL_RESPONSE_DIRECTIVES e \<and> getDialogRequestId directive = []
                  then routerHandleDirectiveImmediately e (calls s) directive
                  else processorOnDirective e (calls s) directive)
              then []
              else [SendExceptionEncountered (getUnparsedDirective directive) UNSUPPORTED_OPERATION
                      ''Unsupported operation''])"
proof -
  have "sequencer_inv s0" using created_inv assms(1) by blast
  with run_inv [of s0 e xs] assms(2) have inv: "sequencer_inv s" by auto
  have sender: "m_exceptionSender s" and nsd: "\<not> m_isShuttingDown s"
    using inv assms(3) by (simp_all add: sequencer_inv_def)
  have step: "receivingLoop_step e s = receiveDirectiveLocked e s"
    using assms(3,4) nsd by (simp add: receivingLoop_step_def wake_def)
  have app: "run e (xs @ [ReceivingThread]) s0 = receivingLoop_step e s"
    using assms(2) by (simp add: run_append bind_result_def split: sum.splits)
  show ?thesis
    unfolding app step receiveDirectiveLocked_Cons [OF assms(4) sender, of e]
    by (simp add: handled_def)
qed

theorem unhandled_directive_reported_once_witness:
  "(\<exists>s'. receivingLoop_step example_env example_sequencer = Inr s' \<and>
      calls s' = calls example_sequencer @
        [RouterHandleDirectiveImmediately example_directive,
         SendExceptionEncountered ''Foo.Bar m1'' UNSUPPORTED_OPERATION ''Unsupported operation''] \<and>
      filter isSendExceptionEncountered (drop (length (calls example_sequencer)) (calls s')) =
        [SendExceptionEncountered ''Foo.Bar m1'' UNSUPPORTED_OPERATION ''Unsupported operation'']) \<and>
   (\<exists>s'. receivingLoop_step example_env_handling example_sequencer = Inr s' \<and>
      calls s' = calls example_sequencer @ [RouterHandleDirectiveImmediately example_directive] \<and>
      filter isSendExceptionEncountered (drop (length (calls example_sequencer)) (calls s')) = []) \<and>
   (\<exists>s'. receivingLoop_step example_env_handling
            (example_sequencer\<lparr>m_receivingQueue := [example_directive_dialog]\<rparr>) = Inr s' \<and>
      calls s' = calls example_sequencer @ [ProcessorOnDirective example_directive_dialog] \<and>
      filter isSendExceptionEncountered (drop (length (calls example_sequencer)) (calls s')) = []) \<and>
   (\<exists>s'. receivingLoop_step example_env
            (example_sequencer\<lparr>m_receivingQueue := [example_directive_dialog]\<rparr>) = Inr s' \<and>
      calls s' = calls example_sequencer @
        [ProcessorOnDirective example_directive_dialog,
         SendExceptionEncountered ''Foo.Bar m1'' UNSUPPORTED_OPERATION ''Unsupported operation''] \<and>
      filter isSendExceptionEncountered (drop (length (calls example_sequencer)) (calls s')) =
        [SendExceptionEncountered ''Foo.Bar m1'' UNSUPPORTED_OPERATION ''Unsupported operation''])"
proof -
  have c: "create example_env True = Some (DirectiveSequencer_new example_env True) \<or>
           createDirectiveSequencerInterface example_env True True = Some (DirectiveSequencer_new example_env True)"
    by (simp add: create_def)
  have c': "create example_env_handling True = Some (DirectiveSequencer_new example_env_handling True) \<or>
           createDirectiveSequencerInterface example_env_handling True True =
             Some (DirectiveSequencer_new example_env_handling True)"
    by (simp add: create_def)
  have r: "run example_env [ReceivingThread, OnDirective (Some example_directive)]
             (DirectiveSequencer_new example_env True) = Inr example_sequencer"
    by (simp add: DirectiveSequencer_new_def example_env_def example_sequencer_def
        receivingLoop_step_def onDirective_def)
  have r': "run example_env_handling [ReceivingThread, OnDirective (Some example_directive)]
             (DirectiveSequencer_new example_env_handling True) = Inr example_sequencer"
    by (simp add: DirectiveSequencer_new_def example_env_handling_def example_env_def example_sequencer_def
        receivingLoop_step_def onDirective_def)
  have rd: "run example_env [ReceivingThread, OnDirective (Some example_directive_dialog)]
             (DirectiveSequencer_new example_env True) =
             Inr (example_sequencer\<lparr>m_receivingQueue := [example_directive_dialog]\<rparr>)"
    by (simp add: DirectiveSequencer_new_def example_env_def example_sequencer_def
        receivingLoop_step_def onDirective_def)
  have rd': "run example_env_handling [ReceivingThread, OnDirective (Some example_directive_dialog)]
             (DirectiveSequencer_new example_env_handling True) =
             Inr (example_sequencer\<lparr>m_receivingQueue := [example_directive_dialog]\<rparr>)"
    by (simp add: DirectiveSequencer_new_def example_env_handling_def example_env_def example_sequencer_def
        receivingLoop_step_def onDirective_def)
  have p: "m_receivingThread_pc example_sequencer = InLoop"
    "m_receivingThread_pc (example_sequencer\<lparr>m_receivingQueue := [example_directive_dialog]\<rparr>) = InLoop"
    by (simp_all add: example_sequencer_def)
  have q: "m_receivingQueue example_sequencer = example_directive # []"
    "m_receivingQueue (example_sequencer\<lparr>m_receivingQueue := [example_directive_dialog]\<rparr>) =
       example_directive_dialog # []"
    by (simp_all add: example_sequencer_def)
  have f: "DIALOG_REQUEST_ID_IN_ALL_RESPONSE_DIRECTIVES example_env"
    "DIALOG_REQUEST_ID_IN_ALL_RESPONSE_DIRECTIVES example_env_handling"
    "getDialogRequestId example_directive = []"
    "getDialogRequestId example_directive_dialog \<noteq> []"
    "getUnparsedDirective example_directive = ''Foo.Bar m1''"
    "getUnparsedDirective example_directive_dialog = ''Foo.Bar m1''"
    "\<And>cs d. \<not> routerHandleDirectiveImmediately example_env cs d"
    "\<And>cs d. \<not> processorOnDirective example_env cs d"
    "\<And>cs d. routerHandleDirectiveImmediately example_env_handling cs d"
    "\<And>cs d. processorOnDirective example_env_handling cs d"
    by (simp_all add: example_env_def example_env_handling_def example_directive_def
        example_directive_dialog_def)
  have k: "calls (example_sequencer\<lparr>m_receivingQueue := [example_directive_dialog]\<rparr>) =
           calls example_sequencer"
    by simp
  from unhandled_directive_reported_once [OF c r p(1) q(1)] have 1: "\<exists>s'. receivingLoop_step example_env example_sequencer = Inr s' \<and>
      calls s' = calls example_sequencer @
        [RouterHandleDirectiveImmediately example_directive,
         SendExceptionEncountered ''Foo.Bar m1'' UNSUPPORTED_OPERATION ''Unsupported operation''] \<and>
      filter isSendExceptionEncountered (drop (length (calls example_sequencer)) (calls s')) =
        [SendExceptionEncountered ''Foo.Bar m1'' UNSUPPORTED_OPERATION ''Unsupported operation'']"
    by (simp add: f) blast
  from unhandled_directive_reported_once [OF c' r' p(1) q(1)] have 2: "\<exists>s'. receivingLoop_step example_env_handling example_sequencer = Inr s' \<and>
      calls s' = calls example_sequencer @ [RouterHandleDirectiveImmediately example_directive] \<and>
      filter isSendExceptionEncountered (drop (length (calls example_sequencer)) (calls s')) = []"
    by (simp add: f) blast
  from unhandled_directive_reported_once [OF c' rd' p(2) q(2)] have 3: "\<exists>s'. receivingLoop_step example_env_handling
            (example_sequencer\<lparr>m_receivingQueue := [example_directive_dialog]\<rparr>) = Inr s' \<and>
      calls s' = calls example_sequencer @ [ProcessorOnDirective example_directive_dialog] \<and>
      filter isSendExceptionEncountered (drop (length (calls example_sequencer)) (calls s')) = []"
    unfolding k by (simp add: f) blast
  from unhandled_directive_reported_once [OF c rd p(2) q(2)] have 4: "\<exists>s'. receivingLoop_step example_env
            (example_sequencer\<lparr>m_receivingQueue := [example_directive_dialog]\<rparr>) = Inr s' \<and>
      calls s' = calls example_sequencer @
        [ProcessorOnDirective example_directive_dialog,
         SendExceptionEncountered ''Foo.Bar m1'' UNSUPPORTED_OPERATION ''Unsupported operation''] \<and>
      filter isSendExceptionEncountered (drop (length (calls example_sequencer)) (calls s')) =
        [SendExceptionEncountered ''Foo.Bar m1'' UNSUPPORTED_OPERATION ''Unsupported operation'']"
    unfolding k by (simp add: f) blast
  from 1 2 3 4 show ?thesis by blast
qed

text \<open>
  Claim C3. With \<open>DIALOG_REQUEST_ID_IN_ALL_RESPONSE_DIRECTIVES\<close> defined, a dequeued directive
  with an empty dialog request id goes to the router's \<open>handleDirectiveImmediately\<close> and one with
  a non-empty id to the processor's \<open>onDirective\<close>; without the option every dequeued directive
  goes to the processor's \<open>onDirective\<close>. That call is the only dispatch of the iteration, and
  its answer is the value of \<open>handled\<close>.
\<close>

theorem dispatch_path_by_build_option:
  assumes "m_receivingQueue s = directive # rest" and "m_exceptionSender s"
  shows "\<exists>s'. receiveDirectiveLocked e s = Inr s' \<and>
           filter isDispatch (drop (length (calls s)) (calls s')) =
             [if DIALOG_REQUEST_ID_IN_ALL_RESPONSE_DIRECTIVES e
              then (if getDialogRequestId directive = []
                    then RouterHandleDirectiveImmediately directive
                    else ProcessorOnDirective directive)
              else ProcessorOnDirective directive] \<and>
           fst (handled e (calls s) directive) =
             (if DIALOG_REQUEST_ID_IN_ALL_RESPONSE_DIRECTIVES e
              then (if getDialogRequestId directive = []
                    then routerHandleDirectiveImmediately e (calls s) directive
                    else processorOnDirective e (calls s) directive)
              else processorOnDirective e (calls s) directive)"
  using receiveDirectiveLocked_Cons [OF assms, of e]
  by (simp add: handled_def)

theorem dispatch_path_by_build_option_witness:
  "\<exists>s'. receiveDirectiveLocked example_env example_sequencer = Inr s' \<and>
      filter isDispatch (drop (length (calls example_sequencer)) (calls s')) =
        [RouterHandleDirectiveImmediately example_directive] \<and>
      \<not> fst (handled example_env (calls example_sequencer) example_directive)"
proof -
  have q: "m_receivingQueue example_sequencer = example_directive # []"
    by (simp add: example_sequencer_def)
  have x: "m_exceptionSender example_sequencer"
    by (simp add: example_sequencer_def)
  have f: "DIALOG_REQUEST_ID_IN_ALL_RESPONSE_DIRECTIVES example_env"
    "getDialogRequestId example_directive = []"
    "\<not> routerHandleDirectiveImmediately example_env (calls example_sequencer) example_directive"
    by (simp_all add: example_env_def example_directive_def)
  from dispatch_path_by_build_option [OF q x, of example_env] show ?thesis
    by (simp add: f)
qed

subsection \<open>Disable and enable\<close>

text \<open>
  Claim C5. \<open>disable\<close> clears \<open>m_isEnabled\<close>, sets the processor's dialog request id to the
  empty string and disables the processor (then notifies the condition variable); \<open>enable\<close>
  sets \<open>m_isEnabled\<close> and enables the processor; neither changes the intake queue.
\<close>

theorem disable_enable_effects:
  "\<not> m_isEnabled (disable s) \<and>
   calls (disable s) = calls s @ [ProcessorSetDialogRequestId [], ProcessorDisable, NotifyOne] \<and>
   m_receivingQueue (disable s) = m_receivingQueue s \<and>
   m_isEnabled (enable s) \<and>
   calls (enable s) = calls s @ [ProcessorEnable, NotifyOne] \<and>
   m_receivingQueue (enable s) = m_receivingQueue s"
  by (simp add: disable_def enable_def)

theorem disable_enable_effects_witness:
  "\<not> m_isEnabled (disable example_sequencer) \<and>
   calls (disable example_sequencer) =
     [PowerAcquire, AssignThreadPowerResource, NotifyOne,
      ProcessorSetDialogRequestId [], ProcessorDisable, NotifyOne] \<and>
   m_receivingQueue (disable example_sequencer) = [example_directive] \<and>
   m_isEnabled (enable (disable example_sequencer)) \<and>
   m_receivingQueue (enable (disable example_sequencer)) = [example_directive]"
  using disable_enable_effects [of example_sequencer] disable_enable_effects [of "disable example_sequencer"]
  by (simp add: example_sequencer_def)

subsection \<open>Order of the intake queue\<close>

text \<open>
  Claim C6. For a created sequencer and any run, the directives dispatched so far followed by
  the directives still in the queue are exactly the directives that \<open>onDirective\<close> accepted,
  in the order of acceptance. An iteration of the receiving loop that finds the thread in its
  loop and a directive at the front of the queue removes exactly that directive and dispatches
  it, with one dispatch call. In a run without shutdown, as many further iterations as the
  queue is long, and one more, leave the queue empty and have dispatched every accepted
  directive, in the order in which \<open>onDirective\<close> returned true. Each call of
  \<open>receiveDirectiveLocked\<close> on a non-empty queue removes the front element and dispatches it.
\<close>

theorem intake_queue_fifo:
  assumes "create e exceptionSender = Some s0 \<or>
           createDirectiveSequencerInterface e exceptionSender shutdownNotifier = Some s0"
  shows "(\<exists>s. run e xs s0 = Inr s \<and>
            dispatched (calls s) @ m_receivingQueue s = accepted e xs s0 \<and>
            (\<forall>d rest. m_receivingThread_pc s = InLoop \<and> m_receivingQueue s = d # rest \<longrightarrow>
               (\<exists>s'. receivingLoop_step e s = Inr s' \<and>
                     run e (xs @ [ReceivingThread]) s0 = Inr s' \<and>
                     m_receivingQueue s' = rest \<and>
                     dispatched (calls s') = dispatched (calls s) @ [d] \<and>
                     filter isDispatch (drop (length (calls s)) (calls s')) =
                       [if DIALOG_REQUEST_ID_IN_ALL_RESPONSE_DIRECTIVES e \<and> getDialogRequestId d = []
                        then RouterHandleDirectiveImmediately d else ProcessorOnDirective d])) \<and>
            (Shutdown \<notin> set xs \<longrightarrow>
               (\<exists>s'. run e (xs @ replicate (Suc (length (m_receivingQueue s))) ReceivingThread) s0 = Inr s' \<and>
                     m_receivingQueue s' = [] \<and>
                     dispatched (calls s') = accepted e xs s0))) \<and>
         (\<forall>t d rest. m_receivingQueue t = d # rest \<and> m_exceptionSender t \<longrightarrow>
            (\<exists>t'. receiveDirectiveLocked e t = Inr t' \<and> m_receivingQueue t' = rest \<and>
                  dispatched (calls t') = dispatched (calls t) @ [d]))"
proof -
  have s0: "sequencer_inv s0" "\<not> m_isShuttingDown s0" using created_inv [OF assms] by blast+
  obtain s where s: "run e xs s0 = Inr s" "sequencer_inv s"
    "dispatched (calls s) @ m_receivingQueue s = accepted e xs s0"
  proof -
    obtain t where t: "run e xs s0 = Inr t"
      "dispatched (calls t) @ m_receivingQueue t = dispatched (calls s0) @ m_receivingQueue s0 @ accepted e xs s0"
      using fifo_run [OF s0(1), of e xs] by blast
    moreover have "sequencer_inv t" using run_inv [OF s0(1), of e xs] t(1) by auto
    moreover have "dispatched (calls s0) = [] \<and> m_receivingQueue s0 = []"
      using created_inv [OF assms] by blast
    ultimately show ?thesis using that by simp
  qed
  have iter: "\<exists>s'. receivingLoop_step e s = Inr s' \<and>
                     run e (xs @ [ReceivingThread]) s0 = Inr s' \<and>
                     m_receivingQueue s' = rest \<and>
                     dispatched (calls s') = dispatched (calls s) @ [d] \<and>
                     filter isDispatch (drop (length (calls s)) (calls s')) =
                       [if DIALOG_REQUEST_ID_IN_ALL_RESPONSE_DIRECTIVES e \<and> getDialogRequestId d = []
                        then RouterHandleDirectiveImmediately d else ProcessorOnDirective d]"
    if pc: "m_receivingThread_pc s = InLoop" and q: "m_receivingQueue s = d # rest" for d rest
  proof -
    have sender: "m_exceptionSender s" and nsd: "\<not> m_isShuttingDown s"
      using s(2) pc by (simp_all add: sequencer_inv_def)
    have step: "receivingLoop_step e s = receiveDirectiveLocked e s"
      using pc q nsd by (simp add: receivingLoop_step_def wake_def)
    have app: "run e (xs @ [ReceivingThread]) s0 = receivingLoop_step e s"
      using s(1) by (simp add: run_append bind_result_def split: sum.splits)
    show ?thesis
      unfolding app step receiveDirectiveLocked_Cons [OF q sender, of e]
      by (simp add: dispatched_append dispatched_handled handled_def)
  qed
  have all: "\<exists>s'. run e (xs @ replicate (Suc (length (m_receivingQueue s))) ReceivingThread) s0 = Inr s' \<and>
                     m_receivingQueue s' = [] \<and> dispatched (calls s') = accepted e xs s0"
    if "Shutdown \<notin> set xs"
  proof -
    have nsd: "\<not> m_isShuttingDown s"
      using run_shuttingDown [OF s(1) that] s0(2) by simp
    have "length (m_receivingQueue s) + (if m_receivingThread_pc s = AtEntry then 1 else 0)
            \<le> Suc (length (m_receivingQueue s))" by simp
    from drain [OF s(2) nsd this, of e] s(1,3) show ?thesis
      by (simp add: run_append)
  qed
  have local: "\<exists>t'. receiveDirectiveLocked e t = Inr t' \<and> m_receivingQueue t' = rest \<and>
                  dispatched (calls t') = dispatched (calls t) @ [d]"
    if "m_receivingQueue t = d # rest" "m_exceptionSender t" for t d rest
    using receiveDirectiveLocked_Cons [OF that, of e]
    by (simp add: dispatched_append dispatched_handled)
  from s(1,3) iter all local show ?thesis by blast
qed

theorem intake_queue_fifo_witness:
  "(\<exists>s'. run example_env
           [OnDirective (Some example_directive), OnDirective None,
            OnDirective (Some example_directive2), Disable, OnDirective (Some example_directive),
            ReceivingThread, ReceivingThread, ReceivingThread]
           (DirectiveSequencer_new example_env True) = Inr s' \<and>
        m_receivingQueue s' = [] \<and>
        dispatched (calls s') = [example_directive, example_directive2]) \<and>
   (\<exists>s'. receivingLoop_step example_env example_sequencer = Inr s' \<and>
         run example_env [ReceivingThread, OnDirective (Some example_directive), ReceivingThread]
           (DirectiveSequencer_new example_env True) = Inr s' \<and>
         m_receivingQueue s' = [] \<and>
         dispatched (calls s') = [example_directive] \<and>
         filter isDispatch (drop (length (calls example_sequencer)) (calls s')) =
           [RouterHandleDirectiveImmediately example_directive])"
proof -
  let ?s0 = "DirectiveSequencer_new example_env True"
  let ?xs = "[OnDirective (Some example_directive), OnDirective None,
            OnDirective (Some example_directive2), Disable, OnDirective (Some example_directive)]"
  let ?ys = "[ReceivingThread, OnDirective (Some example_directive)]"
  have c: "create example_env True = Some ?s0 \<or>
           createDirectiveSequencerInterface example_env True True = Some ?s0"
    by (simp add: create_def)
  have a: "accepted example_env ?xs ?s0 = [example_directive, example_directive2]"
    by (simp add: DirectiveSequencer_new_def example_env_def onDirective_def disable_def)
  have n: "Shutdown \<notin> set ?xs" by simp
  from intake_queue_fifo [OF c, of ?xs]
  obtain s where s: "run example_env ?xs ?s0 = Inr s"
    "dispatched (calls s) @ m_receivingQueue s = accepted example_env ?xs ?s0"
    "Shutdown \<notin> set ?xs \<longrightarrow>
       (\<exists>s'. run example_env (?xs @ replicate (Suc (length (m_receivingQueue s))) ReceivingThread) ?s0 = Inr s' \<and>
             m_receivingQueue s' = [] \<and> dispatched (calls s') = accepted example_env ?xs ?s0)"
    by blast
  have "m_receivingQueue s = [example_directive, example_directive2]"
    using s(1) by (auto simp: DirectiveSequencer_new_def example_env_def onDirective_def disable_def)
  with s(3) n a have 1: "\<exists>s'. run example_env
           [OnDirective (Some example_directive), OnDirective None,
            OnDirective (Some example_directive2), Disable, OnDirective (Some example_directive),
            ReceivingThread, ReceivingThread, ReceivingThread] ?s0 = Inr s' \<and>
        m_receivingQueue s' = [] \<and>
        dispatched (calls s') = [example_directive, example_directive2]"
    by (simp add: numeral_3_eq_3)
  from intake_queue_fifo [OF c, of ?ys]
  obtain t where t: "run example_env ?ys ?s0 = Inr t"
    "\<forall>d rest. m_receivingThread_pc t = InLoop \<and> m_receivingQueue t = d # rest \<longrightarrow>
               (\<exists>s'. receivingLoop_step example_env t = Inr s' \<and>
                     run example_env (?ys @ [ReceivingThread]) ?s0 = Inr s' \<and>
                     m_receivingQueue s' = rest \<and>
                     dispatched (calls s') = dispatched (calls t) @ [d] \<and>
                     filter isDispatch (drop (length (calls t)) (calls s')) =
                       [if DIALOG_REQUEST_ID_IN_ALL_RESPONSE_DIRECTIVES example_env \<and> getDialogRequestId d = []
                        then RouterHandleDirectiveImmediately d else ProcessorOnDirective d])"
    by blast
  have te: "t = example_sequencer"
    using t(1) by (simp add: DirectiveSequencer_new_def example_env_def example_sequencer_def
        receivingLoop_step_def onDirective_def)
  have q: "m_receivingThread_pc example_sequencer = InLoop \<and>
           m_receivingQueue example_sequencer = example_directive # []"
    by (simp add: example_sequencer_def)
  have f: "DIALOG_REQUEST_ID_IN_ALL_RESPONSE_DIRECTIVES example_env \<and> getDialogRequestId example_directive = []"
    "dispatched (calls example_sequencer) = []"
    by (simp_all add: example_env_def example_directive_def example_sequencer_def)
  from t(2) [unfolded te, rule_format, OF q] f
  have 2: "\<exists>s'. receivingLoop_step example_env example_sequencer = Inr s' \<and>
         run example_env [ReceivingThread, OnDirective (Some example_directive), ReceivingThread] ?s0 = Inr s' \<and>
         m_receivingQueue s' = [] \<and>
         dispatched (calls s') = [example_directive] \<and>
         filter isDispatch (drop (length (calls example_sequencer)) (calls s')) =
           [RouterHandleDirectiveImmediately example_directive]"
    by simp
  from 1 2 show ?thesis by blast
qed

subsection \<open>Shutdown and the power resource\<close>

text \<open>
  Claim C4. For a created sequencer, after any run, \<open>doShutdown\<close> returns, and what it did is,
  in this order: set \<open>m_isShuttingDown\<close> and notify the condition variable; join the receiving
  thread if it is joinable, during which the thread leaves its loop, removes its thread power
  resource and releases the power resource if there is one; shut down the processor; shut
  down the router. The thread is joinable unless an earlier shutdown has joined it. When
  \<open>doShutdown\<close> returns the thread has returned and is no longer joinable, and the power
  resource has been released as often as it was acquired.
\<close>

theorem doShutdown_order:
  assumes "create e exceptionSender = Some s0 \<or>
           createDirectiveSequencerInterface e exceptionSender shutdownNotifier = Some s0"
  shows "\<exists>s s'. run e xs s0 = Inr s \<and> doShutdown e s = Inr s' \<and>
           m_isShuttingDown s' \<and> m_receivingThread_pc s' = Returned \<and> \<not> m_receivingThread_joinable s' \<and>
           calls s' = calls s @ [NotifyOne] @
             (if m_receivingThread_joinable s
              then (if m_receivingThread_pc s = AtEntry then [AssignThreadPowerResource] else []) @
                   [RemoveThreadPowerResource] @ (if m_powerResource s then [PowerRelease] else [])
              else []) @
             [ProcessorShutdown, RouterShutdown] \<and>
           (Shutdown \<in> set xs \<or> m_receivingThread_joinable s) \<and>
           count_list (calls s') PowerRelease = count_list (calls s') PowerAcquire"
proof -
  have s0: "sequencer_inv s0" "\<not> m_isShuttingDown s0" using created_inv [OF assms] by blast+
  then obtain s where s: "run e xs s0 = Inr s" "sequencer_inv s"
    using run_inv by blast
  have first: "Shutdown \<in> set xs \<or> m_receivingThread_joinable s"
  proof (cases "Shutdown \<in> set xs")
    case False
    from run_shuttingDown [OF s(1) False] s0(2) have "\<not> m_isShuttingDown s" by simp
    with s(2) show ?thesis by (simp add: sequencer_inv_def)
  qed simp
  obtain s' where s': "doShutdown e s = Inr s'" "m_isShuttingDown s'"
    "m_receivingThread_joinable s \<longrightarrow> m_receivingThread_pc s' = Returned \<and> \<not> m_receivingThread_joinable s'"
    "\<not> m_receivingThread_joinable s \<longrightarrow> m_receivingThread_pc s' = m_receivingThread_pc s \<and> \<not> m_receivingThread_joinable s'"
    "calls s' = calls s @ [NotifyOne] @ (if m_receivingThread_joinable s then thread_exit_calls s else [])
                   @ [ProcessorShutdown, RouterShutdown]"
    using doShutdown_total [of e s] by blast
  have inv': "sequencer_inv s'"
    using apply_op_inv [OF s(2), of e Shutdown] s'(1) by simp
  have pc: "m_receivingThread_pc s' = Returned" "\<not> m_receivingThread_joinable s'"
    using s'(3,4) s(2) by (auto simp: sequencer_inv_def)
  have pr: "m_powerResource s' = m_powerResource s"
    using apply_op_powerResource [of e Shutdown s s'] s'(1) by simp
  have cnt: "count_list (calls s') PowerRelease = count_list (calls s') PowerAcquire"
    using inv' pc by (simp add: sequencer_inv_def)
  have cs: "calls s' = calls s @ [NotifyOne] @
             (if m_receivingThread_joinable s
              then (if m_receivingThread_pc s = AtEntry then [AssignThreadPowerResource] else []) @
                   [RemoveThreadPowerResource] @ (if m_powerResource s then [PowerRelease] else [])
              else []) @
             [ProcessorShutdown, RouterShutdown]"
    using s'(5) s(2) by (simp add: thread_exit_calls_def sequencer_inv_def)
  from s(1) s'(1,2) pc cs first cnt show ?thesis by blast
qed

theorem doShutdown_order_witness:
  "\<exists>s s'. run example_env [ReceivingThread, OnDirective (Some example_directive)]
             (DirectiveSequencer_new example_env True) = Inr s \<and>
           doShutdown example_env s = Inr s' \<and>
           m_isShuttingDown s' \<and> m_receivingThread_pc s' = Returned \<and> \<not> m_receivingThread_joinable s' \<and>
           calls s' = calls s @ [NotifyOne] @
             (if m_receivingThread_joinable s
              then (if m_receivingThread_pc s = AtEntry then [AssignThreadPowerResource] else []) @
                   [RemoveThreadPowerResource] @ (if m_powerResource s then [PowerRelease] else [])
              else []) @
             [ProcessorShutdown, RouterShutdown] \<and>
           m_receivingThread_joinable s \<and>
           count_list (calls s') PowerRelease = count_list (calls s') PowerAcquire"
proof -
  have c: "create example_env True = Some (DirectiveSequencer_new example_env True) \<or>
           createDirectiveSequencerInterface example_env True True = Some (DirectiveSequencer_new example_env True)"
    by (simp add: create_def)
  from doShutdown_order [OF c, of "[ReceivingThread, OnDirective (Some example_directive)]"]
  show ?thesis by simp
qed

text \<open>
  Claim C7. When the power monitor hands out a power resource, construction acquires it once.
  In every run without a shutdown the resource stays acquired once and never released, so
  no operation and no loop iteration acquires or releases it. The shutdown that follows
  releases it once, among the last calls of the receiving thread, and whatever runs after that
  neither acquires nor releases it again.
\<close>

theorem power_resource_held_until_shutdown:
  assumes "create e exceptionSender = Some s0 \<or>
           createDirectiveSequencerInterface e exceptionSender shutdownNotifier = Some s0"
    and "createLocalPowerResource e"
    and "Shutdown \<notin> set xs"
  shows "count_list (calls s0) PowerAcquire = 1 \<and> count_list (calls s0) PowerRelease = 0 \<and>
         (\<exists>s s' s''. run e xs s0 = Inr s \<and>
            count_list (calls s) PowerAcquire = 1 \<and> count_list (calls s) PowerRelease = 0 \<and>
            doShutdown e s = Inr s' \<and>
            calls s' = calls s @ [NotifyOne] @
              (if m_receivingThread_pc s = AtEntry then [AssignThreadPowerResource] else []) @
              [RemoveThreadPowerResource, PowerRelease, ProcessorShutdown, RouterShutdown] \<and>
            count_list (calls s') PowerAcquire = 1 \<and> count_list (calls s') PowerRelease = 1 \<and>
            run e ys s' = Inr s'' \<and>
            count_list (calls s'') PowerAcquire = 1 \<and> count_list (calls s'') PowerRelease = 1)"
proof -
  have s0: "sequencer_inv s0" "\<not> m_isShuttingDown s0" "m_powerResource s0"
    using created_inv [OF assms(1)] assms(2) by auto
  obtain s where s: "run e xs s0 = Inr s" "sequencer_inv s"
    using run_inv [OF s0(1)] by blast
  have nsd: "\<not> m_isShuttingDown s"
    using run_shuttingDown [OF s(1) assms(3)] s0(2) by simp
  have pw: "m_powerResource s"
    using run_powerResource [OF s(1)] s0(3) by simp
  have pc: "m_receivingThread_pc s \<noteq> Returned" "m_receivingThread_joinable s"
    using s(2) nsd by (simp_all add: sequencer_inv_def)
  obtain s' where s': "doShutdown e s = Inr s'"
    "calls s' = calls s @ [NotifyOne] @ (if m_receivingThread_joinable s then thread_exit_calls s else [])
                   @ [ProcessorShutdown, RouterShutdown]"
    "m_receivingThread_joinable s \<longrightarrow> m_receivingThread_pc s' = Returned \<and> \<not> m_receivingThread_joinable s'"
    using doShutdown_total [of e s] by blast
  have inv': "sequencer_inv s'"
    using apply_op_inv [OF s(2), of e Shutdown] s'(1) by simp
  have pw': "m_powerResource s'"
    using apply_op_powerResource [of e Shutdown s s'] s'(1) pw by simp
  have pc': "m_receivingThread_pc s' = Returned" using s'(3) pc(2) by simp
  obtain s'' where s'': "run e ys s' = Inr s''" "sequencer_inv s''"
    using run_inv [OF inv'] by blast
  have pw'': "m_powerResource s''"
    using run_powerResource [OF s''(1)] pw' by simp
  have sd'': "m_isShuttingDown s''"
    using run_stays_shuttingDown [OF s''(1)] inv' pc' by (simp add: sequencer_inv_def)
  have a0: "count_list (calls s0) PowerAcquire = 1 \<and> count_list (calls s0) PowerRelease = 0"
    using s0 by (simp add: sequencer_inv_def)
  have a1: "count_list (calls s) PowerAcquire = 1 \<and> count_list (calls s) PowerRelease = 0"
    using s(2) pw pc by (simp add: sequencer_inv_def)
  have a2: "count_list (calls s') PowerAcquire = 1 \<and> count_list (calls s') PowerRelease = 1"
    using inv' pw' pc' by (simp add: sequencer_inv_def)
  have a3: "count_list (calls s'') PowerAcquire = 1 \<and> count_list (calls s'') PowerRelease = 1"
    using s''(2) pw'' sd'' by (simp add: sequencer_inv_def)
  have cs: "calls s' = calls s @ [NotifyOne] @
              (if m_receivingThread_pc s = AtEntry then [AssignThreadPowerResource] else []) @
              [RemoveThreadPowerResource, PowerRelease, ProcessorShutdown, RouterShutdown]"
    using s'(2) pc pw by (simp add: thread_exit_calls_def)
  from a0 a1 a2 a3 cs s(1) s'(1) s''(1) show ?thesis by blast
qed

theorem power_resource_held_until_shutdown_witness:
  "count_list (calls (DirectiveSequencer_new example_env True)) PowerAcquire = 1 \<and>
   count_list (calls (DirectiveSequencer_new example_env True)) PowerRelease = 0 \<and>
   (\<exists>s s' s''. run example_env [ReceivingThread, OnDirective (Some example_directive), ReceivingThread, Disable]
              (DirectiveSequencer_new example_env True) = Inr s \<and>
            count_list (calls s) PowerAcquire = 1 \<and> count_list (calls s) PowerRelease = 0 \<and>
            doShutdown example_env s = Inr s' \<and>
            calls s' = calls s @ [NotifyOne] @
              (if m_receivingThread_pc s = AtEntry then [AssignThreadPowerResource] else []) @
              [RemoveThreadPowerResource, PowerRelease, ProcessorShutdown, RouterShutdown] \<and>
            count_list (calls s') PowerAcquire = 1 \<and> count_list (calls s') PowerRelease = 1 \<and>
            run example_env [OnDirective (Some example_directive), ReceivingThread, Shutdown] s' = Inr s'' \<and>
            count_list (calls s'') PowerAcquire = 1 \<and> count_list (calls s'') PowerRelease = 1)"
proof -
  have c: "create example_env True = Some (DirectiveSequencer_new example_env True) \<or>
           createDirectiveSequencerInterface example_env True True = Some (DirectiveSequencer_new example_env True)"
    by (simp add: create_def)
  have p: "createLocalPowerResource example_env" by (simp add: example_env_def)
  have n: "Shutdown \<notin> set [ReceivingThread, OnDirective (Some example_directive), ReceivingThread, Disable]"
    by simp
  from power_resource_held_until_shutdown [OF c p n] show ?thesis .
qed

section \<open>Properties of the registration manager\<close>

lemma notifyObservers_loop_Some:
  "notifyObservers_loop (map Some observers) rm =
     Inr (rm\<lparr>rm_calls := rm_calls rm @ map ObserverOnLogout observers\<rparr>)"
  by (induction observers arbitrary: rm) simp_all

text \<open>
  Claim C8. With a directive sequencer, a connection manager and a data manager in place and
  no null observer registered, \<open>logout\<close> returns, and its calls are, in this order: disable
  the directive sequencer, disable the connection manager, clear the customer data, then
  \<open>onLogout\<close> on each observer, then the metric if there is a recorder and an event. At the
  moment the callback of any observer runs, that is after the observers \<open>before\<close> it, the three
  first calls have been made and the sequencer is the disabled one: \<open>m_isEnabled\<close> is false and
  \<open>onDirective\<close> returns false for every directive and changes nothing.
\<close>

theorem logout_order:
  assumes "m_directiveSequencer rm = Some ds"
    and "m_connectionManager rm" and "m_dataManager rm"
    and "m_observers rm = map Some observers"
  shows "(\<exists>rm'. logout metricEvent rm = Inr rm' \<and>
            rm_calls rm' = rm_calls rm @
              [DirectiveSequencerDisable, ConnectionManagerDisable, DataManagerClearData] @
              map ObserverOnLogout observers @
              (if m_metricRecorder rm \<and> metricEvent
               then [RecordMetric ''REGISTRATION_MANAGER-LOGOUT_OCCURRED''] else []) \<and>
            m_directiveSequencer rm' = Some (disable ds)) \<and>
         (\<forall>before obs after. observers = before @ obs # after \<longrightarrow>
            (\<exists>rm3 now.
               bind_result (directiveSequencer_disable rm) (\<lambda>rm1.
                 bind_result (connectionManager_disable rm1) dataManager_clearData) = Inr rm3 \<and>
               notifyObservers_loop (map Some before) rm3 = Inr now \<and>
               rm_calls now = rm_calls rm @
                 [DirectiveSequencerDisable, ConnectionManagerDisable, DataManagerClearData] @
                 map ObserverOnLogout before \<and>
               m_directiveSequencer now = Some (disable ds) \<and>
               \<not> m_isEnabled (disable ds) \<and>
               (\<forall>directive. onDirective directive (disable ds) = (False, disable ds))))"
proof -
  let ?rm3 = "rm\<lparr>m_directiveSequencer := Some (disable ds),
                 rm_calls := rm_calls rm @ [DirectiveSequencerDisable, ConnectionManagerDisable, DataManagerClearData]\<rparr>"
  have pre: "bind_result (directiveSequencer_disable rm) (\<lambda>rm1.
                 bind_result (connectionManager_disable rm1) dataManager_clearData) = Inr ?rm3"
    using assms(1-3)
    by (simp add: directiveSequencer_disable_def connectionManager_disable_def dataManager_clearData_def)
  have whole: "logout metricEvent rm =
      Inr (submitLogoutMetric metricEvent (?rm3\<lparr>rm_calls := rm_calls ?rm3 @ map ObserverOnLogout observers\<rparr>))"
    using assms
    by (simp add: logout_def directiveSequencer_disable_def connectionManager_disable_def
        dataManager_clearData_def notifyObservers_def notifyObservers_loop_Some)
  have first: "\<exists>rm'. logout metricEvent rm = Inr rm' \<and>
            rm_calls rm' = rm_calls rm @
              [DirectiveSequencerDisable, ConnectionManagerDisable, DataManagerClearData] @
              map ObserverOnLogout observers @
              (if m_metricRecorder rm \<and> metricEvent
               then [RecordMetric ''REGISTRATION_MANAGER-LOGOUT_OCCURRED''] else []) \<and>
            m_directiveSequencer rm' = Some (disable ds)"
    unfolding whole
    by (simp add: submitLogoutMetric_def METRIC_SOURCE_PREFIX_def LOGOUT_OCCURRED_def)
  have rej: "\<not> m_isEnabled (disable ds) \<and> (\<forall>directive. onDirective directive (disable ds) = (False, disable ds))"
    by (simp add: disable_def onDirective_def split: option.splits)
  have second: "\<exists>rm3 now.
               bind_result (directiveSequencer_disable rm) (\<lambda>rm1.
                 bind_result (connectionManager_disable rm1) dataManager_clearData) = Inr rm3 \<and>
               notifyObservers_loop (map Some before) rm3 = Inr now \<and>
               rm_calls now = rm_calls rm @
                 [DirectiveSequencerDisable, ConnectionManagerDisable, DataManagerClearData] @
                 map ObserverOnLogout before \<and>
               m_directiveSequencer now = Some (disable ds) \<and>
               \<not> m_isEnabled (disable ds) \<and>
               (\<forall>directive. onDirective directive (disable ds) = (False, disable ds))"
    for before
    using pre rej by (simp add: notifyObservers_loop_Some)
  from first second show ?thesis by blast
qed

theorem logout_order_witness:
  "(\<exists>rm'. logout True example_manager = Inr rm' \<and>
      rm_calls rm' =
        [DirectiveSequencerDisable, ConnectionManagerDisable, DataManagerClearData,
         ObserverOnLogout 7, ObserverOnLogout 3, RecordMetric ''REGISTRATION_MANAGER-LOGOUT_OCCURRED''] \<and>
      m_directiveSequencer rm' = Some (disable example_sequencer)) \<and>
   (\<exists>rm3 now.
      bind_result (directiveSequencer_disable example_manager) (\<lambda>rm1.
        bind_result (connectionManager_disable rm1) dataManager_clearData) = Inr rm3 \<and>
      notifyObservers_loop [Some 7] rm3 = Inr now \<and>
      rm_calls now =
        [DirectiveSequencerDisable, ConnectionManagerDisable, DataManagerClearData, ObserverOnLogout 7] \<and>
      m_directiveSequencer now = Some (disable example_sequencer) \<and>
      onDirective (Some example_directive) (disable example_sequencer) = (False, disable example_sequencer))"
proof -
  have h: "m_directiveSequencer example_manager = Some example_sequencer"
    "m_connectionManager example_manager" "m_dataManager example_manager"
    "m_observers example_manager = map Some [7, 3]"
    by (simp_all add: example_manager_def)
  have v: "m_metricRecorder example_manager" "rm_calls example_manager = []"
    by (simp_all add: example_manager_def)
  note t = logout_order [OF h, of True]
  from t have a: "\<exists>rm'. logout True example_manager = Inr rm' \<and>
      rm_calls rm' =
        [DirectiveSequencerDisable, ConnectionManagerDisable, DataManagerClearData,
         ObserverOnLogout 7, ObserverOnLogout 3, RecordMetric ''REGISTRATION_MANAGER-LOGOUT_OCCURRED''] \<and>
      m_directiveSequencer rm' = Some (disable example_sequencer)"
    by (simp add: v)
  from t have "[7::nat, 3] = [7] @ 3 # [] \<longrightarrow>
     (\<exists>rm3 now.
      bind_result (directiveSequencer_disable example_manager) (\<lambda>rm1.
        bind_result (connectionManager_disable rm1) dataManager_clearData) = Inr rm3 \<and>
      notifyObservers_loop (map Some [7]) rm3 = Inr now \<and>
      rm_calls now = rm_calls example_manager @
        [DirectiveSequencerDisable, ConnectionManagerDisable, DataManagerClearData] @ map ObserverOnLogout [7] \<and>
      m_directiveSequencer now = Some (disable example_sequencer) \<and>
      \<not> m_isEnabled (disable example_sequencer) \<and>
      (\<forall>directive. onDirective directive (disable example_sequencer) = (False, disable example_sequencer)))"
    by blast
  then have b: "\<exists>rm3 now.
      bind_result (directiveSequencer_disable example_manager) (\<lambda>rm1.
        bind_result (connectionManager_disable rm1) dataManager_clearData) = Inr rm3 \<and>
      notifyObservers_loop [Some 7] rm3 = Inr now \<and>
      rm_calls now =
        [DirectiveSequencerDisable, ConnectionManagerDisable, DataManagerClearData, ObserverOnLogout 7] \<and>
      m_directiveSequencer now = Some (disable example_sequencer) \<and>
      onDirective (Some example_directive) (disable example_sequencer) = (False, disable example_sequencer)"
    by (simp add: v) blast
  from a b show ?thesis by blast
qed

section \<open>Properties of the endpoint resources\<close>

lemma er_run_snoc: "er_run (xs @ [x]) = er_apply x (er_run xs)"
  by (simp add: er_run_def)

lemma er_run_Nil: "er_run [] = EndpointResources_new"
  by (simp add: er_run_def)

lemma er_apply_inv:
  assumes "er_inv xs r"
  shows "er_inv (xs @ [x]) (er_apply x r)"
proof (cases x)
  case (AddFriendlyNameWithAssetId a)
  with assms show ?thesis
    by (auto simp: er_inv_def addFriendlyNameWithAssetId_def noteError_def)
next
  case (AddFriendlyNameWithText t l)
  with assms show ?thesis
    by (auto simp: er_inv_def addFriendlyNameWithText_def noteError_def found_def list_ex_iff)
next
  case (AddManufacturerNameWithAssetId a)
  with assms show ?thesis
    by (auto simp: er_inv_def addManufacturerNameWithAssetId_def noteError_def)
next
  case (AddManufacturerNameWithText t l)
  with assms show ?thesis
    by (auto simp: er_inv_def addManufacturerNameWithText_def noteError_def Let_def
        MAX_MANUFACTURER_NAME_LENGTH_def)
next
  case (AddDescriptionWithAssetId a)
  with assms show ?thesis
    by (auto simp: er_inv_def addDescriptionWithAssetId_def noteError_def)
next
  case (AddDescriptionWithText t l)
  with assms show ?thesis
    by (auto simp: er_inv_def addDescriptionWithText_def noteError_def Let_def
        MAX_DESCRIPTION_LENGTH_def)
qed

lemma er_run_inv: "er_inv xs (er_run xs)"
proof (induction xs rule: rev_induct)
  case Nil
  show ?case
    by (simp add: er_inv_def er_run_Nil EndpointResources_new_def Label_default_def)
next
  case (snoc x xs)
  then show ?case by (simp add: er_run_snoc er_apply_inv)
qed

lemma example_run:
  "er_run example_ops =
     \<lparr> m_isValid = True,
       m_friendlyNames = [\<lparr>label_type = Some TEXT, label_value = ''lamp'', label_locale = Some ''en-US''\<rparr>],
       m_manufacturerName = \<lparr>label_type = Some TEXT, label_value = ''acme'', label_locale = Some ''en-US''\<rparr>,
       m_description = \<lparr>label_type = Some ASSET, label_value = ''Alexa.Desc'', label_locale = None\<rparr>,
       errorLog = [] \<rparr>"
  by (simp add: er_run_def example_ops_def EndpointResources_new_def Label_default_def
      addFriendlyNameWithText_def addManufacturerNameWithText_def addDescriptionWithAssetId_def
      found_def Label_eq_def valueOr_def MAX_FRIENDLY_NAME_LENGTH_def MAX_MANUFACTURER_NAME_LENGTH_def)

text \<open>
  Claim C9. For a JSON generator that never renders the empty text: \<open>build\<close> returns the
  empty string exactly when \<open>isValid\<close> is false. After any sequence of add operations on a new
  object, \<open>isValid\<close> is true exactly when no operation logged an error and a friendly name, a
  manufacturer name and a description operation were called; equally, exactly when no error
  was logged, the list of friendly names is not empty and the values of the manufacturer name
  and of the description are not empty. When \<open>isValid\<close> is true, \<open>build\<close> returns the non-empty
  text of a generator that was given the array \<open>friendlyNames\<close> and the members \<open>manufacturerName\<close>
  and \<open>description\<close>, in this order.
\<close>

theorem build_empty_iff_invalid:
  assumes "\<forall>g. toString j g \<noteq> []"
  shows "(build j r = []) = (\<not> isValid r) \<and>
         isValid (er_run xs) =
           (errorLog (er_run xs) = [] \<and> list_ex isFriendlyNameOp xs \<and>
            list_ex isManufacturerNameOp xs \<and> list_ex isDescriptionOp xs) \<and>
         isValid (er_run xs) =
           (errorLog (er_run xs) = [] \<and> m_friendlyNames (er_run xs) \<noteq> [] \<and>
            label_value (m_manufacturerName (er_run xs)) \<noteq> [] \<and>
            label_value (m_description (er_run xs)) \<noteq> []) \<and>
         (if isValid r
          then build j r \<noteq> [] \<and>
               build j r =
                 toString j
                   (addRawJsonMember j ''description'' (toJson j (m_description r))
                     (addRawJsonMember j ''manufacturerName'' (toJson j (m_manufacturerName r))
                       (addMembersArray j ''friendlyNames'' (map (toJson j) (m_friendlyNames r))
                         (newGenerator j))))
          else build j r = [])"
proof -
  have a: "(build j r = []) = (\<not> isValid r)"
    using assms by (simp add: build_def)
  have b: "isValid (er_run xs) =
           (errorLog (er_run xs) = [] \<and> list_ex isFriendlyNameOp xs \<and>
            list_ex isManufacturerNameOp xs \<and> list_ex isDescriptionOp xs)"
    using er_run_inv [of xs] by (auto simp: er_inv_def isValid_def)
  have c: "isValid (er_run xs) =
           (errorLog (er_run xs) = [] \<and> m_friendlyNames (er_run xs) \<noteq> [] \<and>
            label_value (m_manufacturerName (er_run xs)) \<noteq> [] \<and>
            label_value (m_description (er_run xs)) \<noteq> [])"
    using er_run_inv [of xs] by (auto simp: er_inv_def isValid_def)
  have d: "(if isValid r
          then build j r \<noteq> [] \<and>
               build j r =
                 toString j
                   (addRawJsonMember j ''description'' (toJson j (m_description r))
                     (addRawJsonMember j ''manufacturerName'' (toJson j (m_manufacturerName r))
                       (addMembersArray j ''friendlyNames'' (map (toJson j) (m_friendlyNames r))
                         (newGenerator j))))
          else build j r = [])"
    using assms by (simp add: build_def)
  from a b c d show ?thesis by blast
qed

theorem build_empty_iff_invalid_witness:
  "isValid (er_run example_ops) \<and>
   errorLog (er_run example_ops) = [] \<and>
   build example_generator (er_run example_ops) \<noteq> [] \<and>
   build example_generator (er_run example_ops) =
     ''{friendlyNames:[{@type:text,value:{text:lamp,locale:en-US,}],manufacturerName:{@type:text,value:{text:acme,locale:en-US,},description:{@type:asset,value:{assetId:Alexa.Desc,},}'' \<and>
   \<not> isValid (er_run [AddFriendlyNameWithAssetId []]) \<and>
   build example_generator (er_run [AddFriendlyNameWithAssetId []]) = []"
proof -
  have g: "\<forall>g. toString example_generator g \<noteq> []"
    by (simp add: example_generator_def)
  have l: "list_ex isFriendlyNameOp example_ops \<and> list_ex isManufacturerNameOp example_ops \<and>
           list_ex isDescriptionOp example_ops"
    by (simp add: example_ops_def)
  have e: "errorLog (er_run example_ops) = []"
    by (simp add: example_run)
  have e2: "errorLog (er_run [AddFriendlyNameWithAssetId []]) \<noteq> []"
    by (simp add: er_run_def addFriendlyNameWithAssetId_def noteError_def)
  have v: "isValid (er_run example_ops)"
    using build_empty_iff_invalid [OF g, of "er_run example_ops" example_ops] l e by blast
  have nv: "\<not> isValid (er_run [AddFriendlyNameWithAssetId []])"
    using build_empty_iff_invalid [OF g, of "er_run example_ops" "[AddFriendlyNameWithAssetId []]"] e2 by blast
  have b: "build example_generator (er_run example_ops) \<noteq> [] \<and>
     build example_generator (er_run example_ops) =
       toString example_generator
         (addRawJsonMember example_generator ''description''
            (toJson example_generator (m_description (er_run example_ops)))
           (addRawJsonMember example_generator ''manufacturerName''
              (toJson example_generator (m_manufacturerName (er_run example_ops)))
             (addMembersArray example_generator ''friendlyNames''
                (map (toJson example_generator) (m_friendlyNames (er_run example_ops)))
               (newGenerator example_generator))))"
    using build_empty_iff_invalid [OF g, of "er_run example_ops" example_ops, THEN conjunct2, THEN conjunct2, THEN conjunct2,
        unfolded if_P [OF v]] .
  have t: "toString example_generator
         (addRawJsonMember example_generator ''description''
            (toJson example_generator (m_description (er_run example_ops)))
           (addRawJsonMember example_generator ''manufacturerName''
              (toJson example_generator (m_manufacturerName (er_run example_ops)))
             (addMembersArray example_generator ''friendlyNames''
                (map (toJson example_generator) (m_friendlyNames (er_run example_ops)))
               (newGenerator example_generator)))) =
     ''{friendlyNames:[{@type:text,value:{text:lamp,locale:en-US,}],manufacturerName:{@type:text,value:{text:acme,locale:en-US,},description:{@type:asset,value:{assetId:Alexa.Desc,},}''"
    by (simp add: example_run example_generator_def toJson_def valueOr_def)
  have nb: "build example_generator (er_run [AddFriendlyNameWithAssetId []]) = []"
    using build_empty_iff_invalid [OF g, of "er_run [AddFriendlyNameWithAssetId []]" example_ops] nv by simp
  from v e b t nv nb show ?thesis by simp
qed

text \<open>
  Claim C10. \<open>addFriendlyNameWithText\<close> with a valid text and locale whose label is already in
  the list changes nothing at all; a second call with the same arguments never changes the
  list or the validity flag, and for valid arguments it changes nothing. \<open>addFriendlyNameWithAssetId\<close>
  with an asset id already in the list leaves the list as it is and clears the validity flag,
  and so does every second call with the same asset id.
\<close>

theorem duplicate_friendly_name_asymmetry:
  "(length text \<noteq> 0 \<and> length text \<le> MAX_FRIENDLY_NAME_LENGTH \<and> locale \<noteq> [] \<and>
      found (m_friendlyNames r) \<lparr>label_type = Some TEXT, label_value = text, label_locale = Some locale\<rparr>
      \<longrightarrow> addFriendlyNameWithText text locale r = r) \<and>
   m_friendlyNames (addFriendlyNameWithText text locale (addFriendlyNameWithText text locale r)) =
     m_friendlyNames (addFriendlyNameWithText text locale r) \<and>
   m_isValid (addFriendlyNameWithText text locale (addFriendlyNameWithText text locale r)) =
     m_isValid (addFriendlyNameWithText text locale r) \<and>
   (length text \<noteq> 0 \<and> length text \<le> MAX_FRIENDLY_NAME_LENGTH \<and> locale \<noteq> []
      \<longrightarrow> addFriendlyNameWithText text locale (addFriendlyNameWithText text locale r) =
           addFriendlyNameWithText text locale r) \<and>
   (found (m_friendlyNames r) \<lparr>label_type = Some ASSET, label_value = assetId, label_locale = None\<rparr>
      \<longrightarrow> m_friendlyNames (addFriendlyNameWithAssetId assetId r) = m_friendlyNames r \<and>
          \<not> m_isValid (addFriendlyNameWithAssetId assetId r)) \<and>
   m_friendlyNames (addFriendlyNameWithAssetId assetId (addFriendlyNameWithAssetId assetId r)) =
     m_friendlyNames (addFriendlyNameWithAssetId assetId r) \<and>
   \<not> m_isValid (addFriendlyNameWithAssetId assetId (addFriendlyNameWithAssetId assetId r))"
  by (auto simp: addFriendlyNameWithText_def addFriendlyNameWithAssetId_def noteError_def found_def
      Label_eq_def valueOr_def)

theorem duplicate_friendly_name_asymmetry_witness:
  "addFriendlyNameWithText ''lamp'' ''en-US'' (er_run example_ops) = er_run example_ops \<and>
   m_isValid (er_run example_ops) \<and>
   m_friendlyNames (addFriendlyNameWithAssetId ''lamp'' (addFriendlyNameWithAssetId ''lamp'' EndpointResources_new)) =
     m_friendlyNames (addFriendlyNameWithAssetId ''lamp'' EndpointResources_new) \<and>
   m_isValid (addFriendlyNameWithAssetId ''lamp'' EndpointResources_new) \<and>
   \<not> m_isValid (addFriendlyNameWithAssetId ''lamp'' (addFriendlyNameWithAssetId ''lamp'' EndpointResources_new))"
proof -
  have f: "length ''lamp'' \<noteq> 0 \<and> length ''lamp'' \<le> MAX_FRIENDLY_NAME_LENGTH \<and> ''en-US'' \<noteq> [] \<and>
      found (m_friendlyNames (er_run example_ops))
        \<lparr>label_type = Some TEXT, label_value = ''lamp'', label_locale = Some ''en-US''\<rparr>"
    by (simp add: example_run MAX_FRIENDLY_NAME_LENGTH_def found_def Label_eq_def valueOr_def)
  have a: "addFriendlyNameWithText ''lamp'' ''en-US'' (er_run example_ops) = er_run example_ops"
    using duplicate_friendly_name_asymmetry [of "''lamp''" "''en-US''" "er_run example_ops"] f by blast
  have v: "m_isValid (er_run example_ops)"
    by (simp add: example_run)
  have w: "m_isValid (addFriendlyNameWithAssetId ''lamp'' EndpointResources_new)"
    by (simp add: addFriendlyNameWithAssetId_def EndpointResources_new_def found_def)
  have b: "m_friendlyNames (addFriendlyNameWithAssetId ''lamp'' (addFriendlyNameWithAssetId ''lamp'' EndpointResources_new)) =
     m_friendlyNames (addFriendlyNameWithAssetId ''lamp'' EndpointResources_new) \<and>
     \<not> m_isValid (addFriendlyNameWithAssetId ''lamp'' (addFriendlyNameWithAssetId ''lamp'' EndpointResources_new))"
    using duplicate_friendly_name_asymmetry [of "[]" "[]" EndpointResources_new "''lamp''"] by blast
  from a v w b show ?thesis by blast
qed

end
